theory Spec2Isabelle
  imports Complex_Main "HOL-Library.AList" "HOL-Library.Sublist"
begin

section \<open>Values, strings and exceptions of the Python program\<close>

text \<open>
  The program is \<^verbatim>\<open>src/core/slide_generator.py\<close>, class \<^verbatim>\<open>SlideGenerator\<close>.
  Everything it handles after \<^verbatim>\<open>json.loads\<close> is a parsed JSON value: \<^verbatim>\<open>None\<close>, a bool, an int, a
  float, a str, a list or a dict with string keys. A dict keeps its keys in insertion order and
  holds each key once, so it is an association list read with \<open>map_of\<close> and written with
  \<open>AList.update\<close> (an existing key keeps its place, a new key goes to the end).
  A Python \<^verbatim>\<open>str\<close> is a \<open>string\<close>; a \<open>char\<close> stands for a code point below 256. The floats NaN and
  the infinities have no counterpart in \<open>JFloat\<close>.
\<close>

datatype json =
    JNull
  | JBool bool
  | JInt int
  | JFloat real
  | JStr string
  | JList "json list"
  | JDict "(string \<times> json) list"

type_synonym pydict = "(string \<times> json) list"

text \<open>The exceptions the code can meet. \<open>OtherError\<close> is any exception raised inside a library
  (the Groq client, \<^verbatim>\<open>RecursionError\<close> of the JSON decoder, ...), with the text of \<^verbatim>\<open>str(e)\<close>.\<close>

datatype exn =
    TypeError
  | AttributeError
  | IndexError
  | UnboundLocalError
  | JSONDecodeError
  | ValueError string
  | OtherError string

text \<open>\<^verbatim>\<open>isinstance(v, dict)\<close>, \<^verbatim>\<open>isinstance(v, list)\<close> and Python truthiness (\<^verbatim>\<open>not v\<close>, \<^verbatim>\<open>if v\<close>).\<close>

fun is_dict :: "json \<Rightarrow> bool" where
  "is_dict (JDict d) = True"
| "is_dict v = False"

fun is_list :: "json \<Rightarrow> bool" where
  "is_list (JList xs) = True"
| "is_list v = False"

fun truthy :: "json \<Rightarrow> bool" where
  "truthy JNull = False"
| "truthy (JBool b) = b"
| "truthy (JInt i) = (i \<noteq> 0)"
| "truthy (JFloat r) = (r \<noteq> 0)"
| "truthy (JStr s) = (s \<noteq> [])"
| "truthy (JList xs) = (xs \<noteq> [])"
| "truthy (JDict d) = (d \<noteq> [])"

text \<open>\<^verbatim>\<open>d.get(k)\<close> (\<^verbatim>\<open>None\<close> when the key is absent), \<^verbatim>\<open>d.get(k, default)\<close> and \<^verbatim>\<open>k in d\<close>.\<close>

definition dict_get :: "pydict \<Rightarrow> string \<Rightarrow> json" where
  "dict_get d k = (case map_of d k of None \<Rightarrow> JNull | Some v \<Rightarrow> v)"

definition dict_get_default :: "pydict \<Rightarrow> string \<Rightarrow> json \<Rightarrow> json" where
  "dict_get_default d k dflt = (case map_of d k of None \<Rightarrow> dflt | Some v \<Rightarrow> v)"

definition has_key :: "pydict \<Rightarrow> string \<Rightarrow> bool" where
  "has_key d k = (map_of d k \<noteq> None)"

text \<open>
  Python's \<^verbatim>\<open>==\<close> on parsed JSON values: numbers compare by value, a bool counting as 0 or 1;
  strings and lists compare element by element; two dicts are equal when they have the same
  keys with equal values, in any order; values of different kinds are unequal.
\<close>

fun py_num :: "json \<Rightarrow> real option" where
  "py_num (JBool b) = Some (if b then 1 else 0)"
| "py_num (JInt i) = Some (of_int i)"
| "py_num (JFloat r) = Some r"
| "py_num v = None"

function (sequential) py_eq :: "json \<Rightarrow> json \<Rightarrow> bool" where
  "py_eq (JList xs) (JList ys) =
     (length xs = length ys \<and> (\<forall>i < length xs. py_eq (xs ! i) (ys ! i)))"
| "py_eq (JDict d) (JDict e) =
     (set (map fst d) = set (map fst e) \<and>
      (\<forall>k \<in> set (map fst d).
         case (map_of d k, map_of e k) of (Some v, Some w) \<Rightarrow> py_eq v w | _ \<Rightarrow> False))"
| "py_eq (JStr s) (JStr t) = (s = t)"
| "py_eq JNull JNull = True"
| "py_eq a b = (case (py_num a, py_num b) of (Some x, Some y) \<Rightarrow> x = y | _ \<Rightarrow> False)"
  by pat_completeness auto
termination
proof (relation "measure (\<lambda>(a, b). size a)")
  fix xs ys :: "json list" and i :: nat
  assume "i < length xs"
  then have "xs ! i \<in> set xs" by simp
  then have "size (xs ! i) \<le> size_list size xs" by (rule size_list_estimation') simp
  then show "((xs ! i, ys ! i), (JList xs, JList ys)) \<in> measure (\<lambda>(a, b). size a)" by simp
next
  fix d e :: "(string \<times> json) list" and k x y v w
  assume "(x, y) = (map_of d k, map_of e k)" "x = Some v"
  then have v: "map_of d k = Some v" by simp
  have "size u < Suc (size_list (size_prod (\<lambda>_. 0) size) al)" if "map_of al k = Some u"
    for al :: "(string \<times> json) list" and u
    using that by (induction al) (auto split: if_splits)
  from this [OF v] show "((v, w), (JDict d, JDict e)) \<in> measure (\<lambda>(a, b). size a)"
    by simp
qed simp

text \<open>
  A value compared with an int (\<^verbatim>\<open>v < n\<close>, \<^verbatim>\<open>1 <= v <= n\<close>): a number compares, anything else raises
  \<^verbatim>\<open>TypeError\<close>. A value used as a list index: an int or a bool, anything else raises \<^verbatim>\<open>TypeError\<close>.
  \<open>py_index\<close> is \<^verbatim>\<open>xs[k]\<close>: a negative index counts from the end, an index out of range raises.
\<close>

definition as_number :: "json \<Rightarrow> exn + real" where
  "as_number v = (case py_num v of None \<Rightarrow> Inl TypeError | Some r \<Rightarrow> Inr r)"

fun as_index :: "json \<Rightarrow> exn + int" where
  "as_index (JInt k) = Inr k"
| "as_index (JBool b) = Inr (if b then 1 else 0)"
| "as_index v = Inl TypeError"

definition py_index :: "'a list \<Rightarrow> int \<Rightarrow> exn + 'a" where
  "py_index xs k =
     (let n = int (length xs) in
      if 0 \<le> k \<and> k < n then Inr (xs ! nat k)
      else if - n \<le> k \<and> k < 0 then Inr (xs ! nat (n + k))
      else Inl IndexError)"

text \<open>\<^verbatim>\<open>hash(v)\<close>, needed to look a value up in a set or a dict: a list or a dict is unhashable.\<close>

fun hashable :: "json \<Rightarrow> bool" where
  "hashable (JList xs) = False"
| "hashable (JDict d) = False"
| "hashable v = True"

subsection \<open>Whitespace and \<^verbatim>\<open>str.strip\<close>\<close>

text \<open>\<^verbatim>\<open>str.strip()\<close> and the class \<^verbatim>\<open>\s\<close> of \<^verbatim>\<open>re\<close> on a \<^verbatim>\<open>str\<close> pattern use the same test
  (\<^verbatim>\<open>Py_UNICODE_ISSPACE\<close>); below 256 it holds of the code points 9 to 13, 28 to 32, 133 and 160.\<close>

definition is_space :: "char \<Rightarrow> bool" where
  "is_space c = (c \<in> set [CHR 0x09, CHR 0x0A, CHR 0x0B, CHR 0x0C, CHR 0x0D,
                           CHR 0x1C, CHR 0x1D, CHR 0x1E, CHR 0x1F, CHR 0x20, CHR 0x85, CHR 0xA0])"

definition lstrip :: "string \<Rightarrow> string" where
  "lstrip s = dropWhile is_space s"

definition rstrip :: "string \<Rightarrow> string" where
  "rstrip s = rev (dropWhile is_space (rev s))"

definition strip :: "string \<Rightarrow> string" where
  "strip s = rstrip (lstrip s)"

subsection \<open>The regular expressions of the extractor\<close>

text \<open>
  \<^verbatim>\<open>re.search\<close> is a backtracking matcher. The three patterns of \<^verbatim>\<open>parse_json_from_response\<close> are
  sequences of literals, one capturing group, and starred character classes: greedy \<^verbatim>\<open>\s*\<close>,
  lazy \<^verbatim>\<open>[\s\S]*?\<close>, greedy \<^verbatim>\<open>.*\<close> (under \<^verbatim>\<open>re.DOTALL\<close>, any character) and greedy \<^verbatim>\<open>[\s\S]*\<close>.
  \<open>rx_match\<close> matches a pattern at the start of the remaining input \<open>s\<close>, which begins at offset
  \<open>pos\<close> of the text, and returns the offsets of group 1: a greedy star first takes one more
  character and gives it back when the rest fails; a lazy star first tries the rest and takes
  one more character when that fails. \<open>rx_search_from\<close> tries the start positions from left to
  right, as \<^verbatim>\<open>re.search\<close> does.
\<close>

datatype cclass = Space | AnyChar

fun in_class :: "cclass \<Rightarrow> char \<Rightarrow> bool" where
  "in_class Space c = is_space c"
| "in_class AnyChar c = True"

datatype rx = Lit string | StarGreedy cclass | StarLazy cclass | GroupOpen | GroupClose

fun rx_match :: "rx list \<Rightarrow> string \<Rightarrow> nat \<Rightarrow> nat \<Rightarrow> nat \<Rightarrow> (nat \<times> nat) option" where
  "rx_match [] s pos gs ge = Some (gs, ge)"
| "rx_match (Lit l # ps) s pos gs ge =
     (if prefix l s then rx_match ps (drop (length l) s) (pos + length l) gs ge else None)"
| "rx_match (GroupOpen # ps) s pos gs ge = rx_match ps s pos pos ge"
| "rx_match (GroupClose # ps) s pos gs ge = rx_match ps s pos gs pos"
| "rx_match (StarGreedy c # ps) [] pos gs ge = rx_match ps [] pos gs ge"
| "rx_match (StarGreedy c # ps) (x # xs) pos gs ge =
     (if in_class c x then
        (case rx_match (StarGreedy c # ps) xs (Suc pos) gs ge of
           Some r \<Rightarrow> Some r
         | None \<Rightarrow> rx_match ps (x # xs) pos gs ge)
      else rx_match ps (x # xs) pos gs ge)"
| "rx_match (StarLazy c # ps) [] pos gs ge = rx_match ps [] pos gs ge"
| "rx_match (StarLazy c # ps) (x # xs) pos gs ge =
     (case rx_match ps (x # xs) pos gs ge of
        Some r \<Rightarrow> Some r
      | None \<Rightarrow> (if in_class c x then rx_match (StarLazy c # ps) xs (Suc pos) gs ge else None))"

fun rx_search_from :: "rx list \<Rightarrow> string \<Rightarrow> nat \<Rightarrow> (nat \<times> nat) option" where
  "rx_search_from ps [] pos = rx_match ps [] pos 0 0"
| "rx_search_from ps (x # xs) pos =
     (case rx_match ps (x # xs) pos 0 0 of
        Some r \<Rightarrow> Some r
      | None \<Rightarrow> rx_search_from ps xs (Suc pos))"

text \<open>\<^verbatim>\<open>m = re.search(pattern, text)\<close> followed by \<^verbatim>\<open>m.group(1)\<close>; \<open>None\<close> when there is no match.\<close>

definition re_search_group1 :: "rx list \<Rightarrow> string \<Rightarrow> string option" where
  "re_search_group1 ps text =
     (case rx_search_from ps text 0 of
        None \<Rightarrow> None
      | Some (b, e) \<Rightarrow> Some (take (e - b) (drop b text)))"

definition START_MARK :: string where "START_MARK = ''START OF JSON''"
definition END_MARK :: string where "END_MARK = ''END OF JSON''"

text \<open>\<^verbatim>\<open>r'START OF JSON\s*([\s\S]*?)\s*END OF JSON'\<close>\<close>
definition pat_markers :: "rx list" where
  "pat_markers = [Lit START_MARK, StarGreedy Space, GroupOpen, StarLazy AnyChar, GroupClose,
                  StarGreedy Space, Lit END_MARK]"

text \<open>\<^verbatim>\<open>r'({.*})'\<close> with \<^verbatim>\<open>re.DOTALL\<close>\<close>
definition pat_object :: "rx list" where
  "pat_object = [GroupOpen, Lit ''{'', StarGreedy AnyChar, Lit ''}'', GroupClose]"

text \<open>\<^verbatim>\<open>r'(\[[\s\S]*\])'\<close>\<close>
definition pat_array :: "rx list" where
  "pat_array = [GroupOpen, Lit ''['', StarGreedy AnyChar, Lit '']'', GroupClose]"


subsection \<open>Decimal text of an int, and \<^verbatim>\<open>urllib.parse.quote\<close>\<close>

text \<open>\<^verbatim>\<open>str(n)\<close> of a Python int, as an f-string writes it.\<close>

fun nat_digits :: "nat \<Rightarrow> string" where
  "nat_digits n =
     (if n < 10 then [''0123456789'' ! n]
      else nat_digits (n div 10) @ [''0123456789'' ! (n mod 10)])"

declare nat_digits.simps [simp del]

definition int_str :: "int \<Rightarrow> string" where
  "int_str i = (if i < 0 then ''-'' @ nat_digits (nat (- i)) else nat_digits (nat i))"

text \<open>
  \<^verbatim>\<open>quote(s)\<close> with its default \<^verbatim>\<open>safe='/'\<close>: letters, digits and \<^verbatim>\<open>_.-~/\<close> stay; any other character
  becomes \<^verbatim>\<open>%XX\<close> for each byte of its UTF-8 encoding, which has one byte below 128 and two
  bytes from 128 to 255.
\<close>

definition quote_safe :: "char \<Rightarrow> bool" where
  "quote_safe c =
     (c \<in> set ''ABCDEFGHIJKLMNOPQRSTUVWXYZabcdefghijklmnopqrstuvwxyz0123456789_.-~/'')"

definition pct :: "nat \<Rightarrow> string" where
  "pct b = [CHR ''%'', ''0123456789ABCDEF'' ! (b div 16), ''0123456789ABCDEF'' ! (b mod 16)]"

definition quote_char :: "char \<Rightarrow> string" where
  "quote_char c =
     (if quote_safe c then [c]
      else (let n = (of_char c :: nat) in
            if n < 128 then pct n else pct (192 + n div 64) @ pct (128 + n mod 64)))"

definition quote :: "string \<Rightarrow> string" where
  "quote s = concat (map quote_char s)"

section \<open>The world outside the program\<close>

text \<open>
  What the code gets from libraries, the environment and the network is a parameter of the model:
  the two modes of \<^verbatim>\<open>json.loads\<close> (strict, and \<^verbatim>\<open>strict=False\<close>), whether \<^verbatim>\<open>GROQ_API_KEY\<close> is set,
  whether the \<^verbatim>\<open>Groq\<close> constructor raises, the answer of the language model to the \<open>n\<close>-th request
  (an exception, or \<^verbatim>\<open>response.choices[0].message.content\<close>, which the client types as an optional
  string), \<^verbatim>\<open>str.lower\<close>, the text an f-string gives for a value, \<^verbatim>\<open>str(e)\<close> of an exception,
  \<^verbatim>\<open>time.strftime('%B %d, %Y')\<close> and \<^verbatim>\<open>int(time.time())\<close> at the \<open>n\<close>-th request, and the configured
  base address of the image service. \<open>fill_slide\<close> stands for lines 576 to 749 of
  \<^verbatim>\<open>create_powerpoint\<close>, which put shapes, text and a downloaded image on the slide just added
  through python-pptx and \<^verbatim>\<open>requests\<close>: given the index, the descriptor and the payload it ends
  normally (\<open>None\<close>) or raises.
\<close>

record env =
  json_loads :: "string \<Rightarrow> exn + json"
  json_loads_lenient :: "string \<Rightarrow> exn + json"
  api_key_set :: bool
  groq_ctor :: "exn option"
  llm :: "nat \<Rightarrow> string \<Rightarrow> exn + string option"
  str_lower :: "string \<Rightarrow> string"
  py_str :: "json \<Rightarrow> string"
  exn_str :: "exn \<Rightarrow> string"
  today :: "nat \<Rightarrow> string"
  unix_time :: "nat \<Rightarrow> int"
  pollinations_base_url :: string
  fill_slide :: "nat \<Rightarrow> (string \<times> json) list \<Rightarrow> (string \<times> json) list \<Rightarrow> exn option"

text \<open>\<^verbatim>\<open>f"{v}"\<close> for a parsed value: a string stands for itself.\<close>

definition fmt :: "env \<Rightarrow> json \<Rightarrow> string" where
  "fmt E v = (case v of JStr s \<Rightarrow> s | _ \<Rightarrow> py_str E v)"

text \<open>
  The state the methods share: whether \<^verbatim>\<open>self.groq_client\<close> is set, the two keys of
  \<^verbatim>\<open>st.session_state\<close> the class writes (\<open>None\<close>: the key is absent), and the prompts sent to the
  language model so far, oldest first. The \<open>n\<close>-th request is the one sent when \<open>n\<close> requests were
  sent before it.
\<close>

record state =
  groq_client :: bool
  debug_slide_structure :: "json list option"
  debug_slide_contents :: "json list option"
  sent :: "string list"

text \<open>\<^verbatim>\<open>__init__\<close> (lines 26 to 47): the client is set when the key is there and the constructor
  does not raise.\<close>

definition init_state :: "env \<Rightarrow> state" where
  "init_state E =
     \<lparr>groq_client = (api_key_set E \<and> groq_ctor E = None),
      debug_slide_structure = None, debug_slide_contents = None, sent = []\<rparr>"

section \<open>The response extractor: \<^verbatim>\<open>parse_json_from_response\<close>\<close>

text \<open>Steps 1 to 3 (lines 60 to 77): the candidate text \<^verbatim>\<open>json_text\<close>, \<open>None\<close> when nothing was found.\<close>

definition startswith :: "string \<Rightarrow> string \<Rightarrow> bool" where
  "startswith s p = prefix p s"

definition find_json_text :: "string \<Rightarrow> string option" where
  "find_json_text response_text =
     (case re_search_group1 pat_markers response_text of
        Some g \<Rightarrow> Some (strip g)
      | None \<Rightarrow>
          (let stripped_response = strip response_text in
           if startswith stripped_response ''{'' \<or> startswith stripped_response ''[''
           then Some stripped_response
           else (case re_search_group1 pat_object response_text of
                   Some g \<Rightarrow> Some (strip g)
                 | None \<Rightarrow>
                     (case re_search_group1 pat_array response_text of
                        Some g \<Rightarrow> Some (strip g)
                      | None \<Rightarrow> None))))"

text \<open>
  The body of the outer \<^verbatim>\<open>try\<close> (lines 59 to 104). \<^verbatim>\<open>if json_text:\<close> fails for \<^verbatim>\<open>None\<close> and for the
  empty string. A \<^verbatim>\<open>JSONDecodeError\<close> of the strict decoder leads to the lenient one, a
  \<^verbatim>\<open>JSONDecodeError\<close> of the lenient one to the empty dict; any other exception leaves the body.
\<close>

definition parse_body :: "env \<Rightarrow> string \<Rightarrow> exn + json" where
  "parse_body E response_text =
     (case find_json_text response_text of
        None \<Rightarrow> Inr (JDict [])
      | Some json_text \<Rightarrow>
          if json_text = [] then Inr (JDict [])
          else (case json_loads E json_text of
                  Inr v \<Rightarrow> Inr v
                | Inl JSONDecodeError \<Rightarrow>
                    (case json_loads_lenient E json_text of
                       Inr v \<Rightarrow> Inr v
                     | Inl JSONDecodeError \<Rightarrow> Inr (JDict [])
                     | Inl e \<Rightarrow> Inl e)
                | Inl e \<Rightarrow> Inl e))"

text \<open>
  The whole function. For a string, \<^verbatim>\<open>except Exception\<close> (line 106) turns every exception of the
  body into the empty dict, and the test of line 111 replaces a value that is neither a dict nor
  a list. When the argument is \<^verbatim>\<open>None\<close>, \<^verbatim>\<open>re.search\<close> raises \<^verbatim>\<open>TypeError\<close> and the handler's own
  \<^verbatim>\<open>response_text[:500]\<close> raises it again, out of the function.
\<close>

definition parse_json_from_response :: "env \<Rightarrow> string option \<Rightarrow> exn + json" where
  "parse_json_from_response E response =
     (case response of
        None \<Rightarrow> Inl TypeError
      | Some response_text \<Rightarrow>
          (let parsed_json = (case parse_body E response_text of Inl e \<Rightarrow> JDict [] | Inr v \<Rightarrow> v)
           in if \<not> (is_dict parsed_json \<or> is_list parsed_json) then Inr (JDict [])
              else Inr parsed_json))"

section \<open>The prompts\<close>

text \<open>
  The f-strings of \<^verbatim>\<open>generate_slide_structure\<close> (lines 147 to 194) and \<^verbatim>\<open>generate_slide_content\<close>
  (lines 257 to 378), line by line. \<open>NL\<close> is the newline, \<open>SQ\<close> the single quote and \<open>BS\<close> the
  backslash; the topic, the delivery medium and the complexity level are Python strings, the
  fields of a slide are parsed values.
\<close>

abbreviation NL :: string where "NL \<equiv> [CHR 0x0A]"
abbreviation SQ :: string where "SQ \<equiv> [CHR 0x27]"
abbreviation BS :: string where "BS \<equiv> [CHR 0x5C]"

text \<open>Lines 257 to 262.\<close>

definition json_rules :: "string" where
  \<open>json_rules =
      NL @
      ''            Your response MUST follow these rules STRICTLY:'' @ NL @
      ''            1. Provide ONLY JSON output strictly between START OF JSON and END OF JSON markers. Do NOT include any text before START OF JSON or after END OF JSON.'' @ NL @
      ''            2. The JSON MUST be a valid JSON object.'' @ NL @
      ''            3. Ensure all strings in the JSON use double quotes ("") and escape special characters if needed (e.g., '' @ BS @ ''n, '' @ BS @ ''").'' @ NL @
      ''            ''\<close>

text \<open>Lines 267 to 279.\<close>

definition prompt_title :: "env \<Rightarrow> nat \<Rightarrow> string \<Rightarrow> string \<Rightarrow> json \<Rightarrow> string" where
  \<open>prompt_title E n topic complexity_level slide_title =
      NL @
      ''                Create content for the title slide of a '' @ (str_lower E complexity_level) @ '' lecture on "'' @ topic @ ''".'' @ NL @
      ''                Slide title: "'' @ (fmt E slide_title) @ ''"'' @ NL @
      ''                '' @ json_rules @ NL @
      ''                START OF JSON'' @ NL @
      ''                {'' @ NL @
      ''                    "title": "'' @ (fmt E slide_title) @ ''",'' @ NL @
      ''                    "subtitle": "An Engaging Subtitle Relevant to '' @ topic @ ''",'' @ NL @
      ''                    "presenter": "Your Name / Affiliation",'' @ NL @
      ''                    "date": "'' @ (today E n) @ ''"'' @ NL @
      ''                }'' @ NL @
      ''                END OF JSON'' @ NL @
      ''                ''\<close>

text \<open>Lines 295 to 309.\<close>

definition prompt_content :: "env \<Rightarrow> string \<Rightarrow> string \<Rightarrow> json \<Rightarrow> json \<Rightarrow> json \<Rightarrow> string \<Rightarrow> string" where
  \<open>prompt_content E topic complexity_level slide_number slide_title slide_type explanation_guidance =
      NL @
      ''                Create concise text content for slide '' @ (fmt E slide_number) @ '', titled "'' @ (fmt E slide_title) @ ''" (type: '' @ (fmt E slide_type) @ ''), for a '' @ (str_lower E complexity_level) @ '' lecture on "'' @ topic @ ''".'' @ NL @
      ''                '' @ explanation_guidance @ '' Aim for 2-3 short paragraphs or key points.'' @ NL @
      ''                '' @ json_rules @ NL @
      ''                START OF JSON'' @ NL @
      ''                {'' @ NL @
      ''                    "main_content": ['' @ NL @
      ''                        "Paragraph 1: Introduce the core idea of '' @ SQ @ (fmt E slide_title) @ SQ @ ''.",'' @ NL @
      ''                        "Paragraph 2: Elaborate with key details or context relevant to '' @ topic @ ''.",'' @ NL @
      ''                        "Paragraph 3 (Optional): Add significance or a brief example."'' @ NL @
      ''                    ],'' @ NL @
      ''                    "needs_image": false'' @ NL @
      ''                }'' @ NL @
      ''                END OF JSON'' @ NL @
      ''                ''\<close>

text \<open>Lines 311 to 327.\<close>

definition prompt_bullet :: "env \<Rightarrow> string \<Rightarrow> string \<Rightarrow> json \<Rightarrow> json \<Rightarrow> json \<Rightarrow> string" where
  \<open>prompt_bullet E topic complexity_level slide_number slide_title slide_type =
      NL @
      ''                Create 3-6 concise bullet points for slide '' @ (fmt E slide_number) @ '', titled "'' @ (fmt E slide_title) @ ''" (type: '' @ (fmt E slide_type) @ ''), for a '' @ (str_lower E complexity_level) @ '' lecture on "'' @ topic @ ''".'' @ NL @
      ''                Each point should be short and impactful (under ~150 characters).'' @ NL @
      ''                '' @ json_rules @ NL @
      ''                START OF JSON'' @ NL @
      ''                {'' @ NL @
      ''                    "main_content": ['' @ NL @
      ''                        "Key point 1 about '' @ SQ @ (fmt E slide_title) @ SQ @ ''.",'' @ NL @
      ''                        "Key point 2, distinct and clear.",'' @ NL @
      ''                        "Key point 3, adding another facet.",'' @ NL @
      ''                        "Key point 4 (if necessary).",'' @ NL @
      ''                        "Key point 5 (if necessary)."'' @ NL @
      ''                    ],'' @ NL @
      ''                    "needs_image": false'' @ NL @
      ''                }'' @ NL @
      ''                END OF JSON'' @ NL @
      ''                ''\<close>

text \<open>Lines 330 to 345.\<close>

definition prompt_image :: "env \<Rightarrow> string \<Rightarrow> string \<Rightarrow> json \<Rightarrow> json \<Rightarrow> json \<Rightarrow> string" where
  \<open>prompt_image E topic complexity_level slide_number slide_title slide_type =
      NL @
      ''                 Create content for slide '' @ (fmt E slide_number) @ '', titled "'' @ (fmt E slide_title) @ ''" (type: '' @ (fmt E slide_type) @ ''), for a '' @ (str_lower E complexity_level) @ '' lecture on "'' @ topic @ ''".'' @ NL @
      ''                 This slide needs a general illustrative image from Pollinations.ai.'' @ NL @
      ''                 Generate a descriptive prompt for Pollinations.ai to create a relevant and professional image.'' @ NL @
      ''                 Also include a short caption for the slide. If any text is included in image strictly make sure the spelling is correct.'' @ NL @
      ''                 '' @ json_rules @ NL @
      ''                 START OF JSON'' @ NL @
      ''                 {'' @ NL @
      ''                     "main_content": ['' @ NL @
      ''                         "Caption: Visual illustration related to '' @ (fmt E slide_title) @ ''"'' @ NL @
      ''                     ],'' @ NL @
      ''                     "needs_image": true,'' @ NL @
      ''                     "image_description": "A clear, professional illustration depicting [concept related to '' @ SQ @ (fmt E slide_title) @ SQ @ ''] for a '' @ (str_lower E complexity_level) @ '' lecture on '' @ SQ @ topic @ SQ @ ''. Style: educational, clean background, high resolution."'' @ NL @
      ''                 }'' @ NL @
      ''                 END OF JSON'' @ NL @
      ''                 ''\<close>

text \<open>Lines 348 to 363.\<close>

definition prompt_conclusion :: "env \<Rightarrow> string \<Rightarrow> string \<Rightarrow> json \<Rightarrow> json \<Rightarrow> json \<Rightarrow> string" where
  \<open>prompt_conclusion E topic complexity_level slide_number slide_title slide_type =
      NL @
      ''                Create content for the final conclusion slide '' @ (fmt E slide_number) @ '', titled "'' @ (fmt E slide_title) @ ''" (type: '' @ (fmt E slide_type) @ ''), for a '' @ (str_lower E complexity_level) @ '' lecture on "'' @ topic @ ''".'' @ NL @
      ''                Summarize 2-4 key takeaways concisely.'' @ NL @
      ''                '' @ json_rules @ NL @
      ''                START OF JSON'' @ NL @
      ''                {'' @ NL @
      ''                    "main_content": ['' @ NL @
      ''                        "Key Takeaway 1: [Summarize main point from lecture]",'' @ NL @
      ''                        "Key Takeaway 2: [Summarize another crucial concept]",'' @ NL @
      ''                        "Key Takeaway 3: [Summarize application or implication]",'' @ NL @
      ''                        "Next Steps / Questions?"'' @ NL @
      ''                    ],'' @ NL @
      ''                    "needs_image": false'' @ NL @
      ''                }'' @ NL @
      ''                END OF JSON'' @ NL @
      ''                ''\<close>

text \<open>Lines 366 to 378.\<close>

definition prompt_fallback :: "env \<Rightarrow> string \<Rightarrow> string \<Rightarrow> json \<Rightarrow> json \<Rightarrow> json \<Rightarrow> string" where
  \<open>prompt_fallback E topic complexity_level slide_number slide_title slide_type =
      NL @
      ''                Create generic content for slide '' @ (fmt E slide_number) @ '', titled "'' @ (fmt E slide_title) @ ''" (type: '' @ (fmt E slide_type) @ ''), for a '' @ (str_lower E complexity_level) @ '' lecture on "'' @ topic @ ''".'' @ NL @
      ''                '' @ json_rules @ NL @
      ''                START OF JSON'' @ NL @
      ''                {'' @ NL @
      ''                    "main_content": ['' @ NL @
      ''                        "Placeholder content for '' @ SQ @ (fmt E slide_title) @ SQ @ ''.",'' @ NL @
      ''                        "This slide type ('' @ SQ @ (fmt E slide_type) @ SQ @ '') needs specific handling."'' @ NL @
      ''                    ],'' @ NL @
      ''                    "needs_image": False # Assuming unknown type doesn'' @ SQ @ ''t need image by default'' @ NL @
      ''                }'' @ NL @
      ''                END OF JSON'' @ NL @
      ''                ''\<close>

text \<open>Lines 147 to 194.\<close>

definition prompt_structure :: "env \<Rightarrow> string \<Rightarrow> string \<Rightarrow> string \<Rightarrow> string" where
  \<open>prompt_structure E topic delivery_medium complexity_level =
      NL @
      ''            Create a well-structured lecture slide deck outline on: "'' @ topic @ ''"'' @ NL @
      ''            The lecture is for '' @ (str_lower E complexity_level) @ '' level students, delivered '' @ delivery_medium @ ''.'' @ NL @
      NL @
      ''            Your response MUST follow these rules STRICTLY:'' @ NL @
      ''            1. Provide ONLY JSON output strictly between START OF JSON and END OF JSON markers. Do NOT include any text before START OF JSON or after END OF JSON.'' @ NL @
      ''            2. The JSON MUST be a valid list of JSON objects.'' @ NL @
      ''            3. Each object MUST represent a slide and contain '' @ SQ @ ''slide_number'' @ SQ @ '' (int), '' @ SQ @ ''slide_title'' @ SQ @ '' (string), and '' @ SQ @ ''slide_type'' @ SQ @ '' (string).'' @ NL @
      ''            4. Use ONLY these exact slide types: "title_slide", "content_slide", "bullet_point_slide", "image_slide", "conclusion_slide".'' @ NL @
      ''            5. Use "image_slide" for general illustrative images (generated by Pollinations) that help visualize a concept. Consider topics that can be easily represented by a single, clear image.'' @ NL @
      ''            6. Ensure all strings in the JSON use double quotes ("") and any special characters within strings are correctly escaped (e.g., '' @ BS @ ''n, '' @ BS @ ''").'' @ NL @
      ''            7. IMPORTANT: If an "image_slide" is required to explain a topic, consider if a preceding "content_slide" with the same "slide_title" is needed to explain the concept verbally first. Pair them logically.'' @ NL @
      NL @
      ''            START OF JSON'' @ NL @
      ''            ['' @ NL @
      ''                {'' @ NL @
      ''                    "slide_number": 1,'' @ NL @
      ''                    "slide_title": "Introduction to '' @ topic @ ''",'' @ NL @
      ''                    "slide_type": "title_slide"'' @ NL @
      ''                },'' @ NL @
      ''                {'' @ NL @
      ''                    "slide_number": 2,'' @ NL @
      ''                    "slide_title": "[Specific Content-Driven Title]",'' @ NL @
      ''                    "slide_type": "content_slide"'' @ NL @
      ''                },'' @ NL @
      ''                 {'' @ NL @
      ''                    "slide_number": 3,'' @ NL @
      ''                    "slide_title": "[Concept Needing Visual Example]",'' @ NL @
      ''                    "slide_type": "content_slide"'' @ NL @
      ''                },'' @ NL @
      ''                {'' @ NL @
      ''                    "slide_number": 4,'' @ NL @
      ''                    "slide_title": "[Concept Needing Visual Example]",'' @ NL @
      ''                    "slide_type": "image_slide"'' @ NL @
      ''                },'' @ NL @
      ''                ... more slides based on topic and complexity ...'' @ NL @
      ''                 {'' @ NL @
      ''                    "slide_number": N,'' @ NL @
      ''                    "slide_title": "Conclusion",'' @ NL @
      ''                    "slide_type": "conclusion_slide"'' @ NL @
      ''                }'' @ NL @
      ''            ]'' @ NL @
      ''            END OF JSON'' @ NL @
      NL @
      ''            Decide the total number of slides based on '' @ (str_lower E complexity_level) @ '' complexity and the depth needed for "'' @ topic @ ''".'' @ NL @
      ''            Make titles specific. Use "image_slide" for illustrations of concepts that Pollinations AI can generally depict (e.g., objects, scenes, abstract representations).'' @ NL @
      ''            Create paired content/visual slides where appropriate. Generate valid JSON according to the rules above.'' @ NL @
      ''            ''\<close>

section \<open>The generators\<close>

subsection \<open>\<^verbatim>\<open>init_groq_client_if_needed\<close> (lines 118 to 133)\<close>

definition init_groq_client_if_needed :: "env \<Rightarrow> state \<Rightarrow> exn + state" where
  "init_groq_client_if_needed E st =
     (if groq_client st then Inr st
      else if api_key_set E then
        (case groq_ctor E of
           None \<Rightarrow> Inr (st\<lparr>groq_client := True\<rparr>)
         | Some e \<Rightarrow> Inl (ValueError (''Failed to initialize Groq client: '' @ exn_str E e)))
      else Inl (ValueError ''Missing GROQ_API_KEY environment variable''))"

subsection \<open>\<^verbatim>\<open>generate_slide_structure\<close> (lines 136 to 239)\<close>

definition valid_slide_types :: "string list" where
  "valid_slide_types =
     [''title_slide'', ''content_slide'', ''bullet_point_slide'', ''image_slide'',
      ''conclusion_slide'']"

text \<open>\<^verbatim>\<open>slide_type not in valid_slide_types\<close>: the set hashes the value first.\<close>

definition not_in_valid_types :: "json \<Rightarrow> exn + bool" where
  "not_in_valid_types slide_type =
     (if \<not> hashable slide_type then Inl TypeError
      else Inr (case slide_type of JStr s \<Rightarrow> s \<notin> set valid_slide_types | _ \<Rightarrow> True))"

text \<open>
  The loop of lines 215 to 228 over \<^verbatim>\<open>enumerate(slide_structure)\<close>: \<open>i\<close> is the index in the parsed
  list, \<open>processed_structure\<close> the list built so far.
\<close>

fun process_items :: "nat \<Rightarrow> json list \<Rightarrow> json list \<Rightarrow> exn + json list" where
  "process_items i [] processed_structure = Inr processed_structure"
| "process_items i (slide # rest) processed_structure =
     (case slide of
        JDict d \<Rightarrow>
          if has_key d ''slide_title'' \<and> has_key d ''slide_type'' then
            (case not_in_valid_types (dict_get d ''slide_type'') of
               Inl e \<Rightarrow> Inl e
             | Inr invalid \<Rightarrow>
                 (let d1 = (if invalid then AList.update ''slide_type'' (JStr ''content_slide'') d
                            else d);
                      d2 = AList.update ''slide_number'' (JInt (int i + 1)) d1
                  in process_items (Suc i) rest (processed_structure @ [JDict d2])))
          else process_items (Suc i) rest processed_structure
      | _ \<Rightarrow> process_items (Suc i) rest processed_structure)"

text \<open>
  The method returns the structure; every exception inside it is caught (line 235) and gives the
  empty list. The request is on record in the state even when the call or the parsing fails.
\<close>

definition generate_slide_structure ::
  "env \<Rightarrow> state \<Rightarrow> string \<Rightarrow> string \<Rightarrow> string \<Rightarrow> json list \<times> state" where
  "generate_slide_structure E st topic delivery_medium complexity_level =
     (case init_groq_client_if_needed E st of
        Inl e \<Rightarrow> ([], st)
      | Inr st1 \<Rightarrow>
          (let prompt = prompt_structure E topic delivery_medium complexity_level;
               st2 = st1\<lparr>sent := sent st1 @ [prompt]\<rparr>
           in case llm E (length (sent st1)) prompt of
                Inl e \<Rightarrow> ([], st2)
              | Inr result_text \<Rightarrow>
                  (case parse_json_from_response E result_text of
                     Inl e \<Rightarrow> ([], st2)
                   | Inr slide_structure \<Rightarrow>
                       (case slide_structure of
                          JList xs \<Rightarrow>
                            if xs = [] then ([], st2)
                            else (case process_items 0 xs [] of
                                    Inl e \<Rightarrow> ([], st2)
                                  | Inr processed_structure \<Rightarrow>
                                      (processed_structure,
                                       st2\<lparr>debug_slide_structure := Some processed_structure\<rparr>))
                        | _ \<Rightarrow> ([], st2)))))"

subsection \<open>\<^verbatim>\<open>generate_pollinations_image\<close> (lines 420 to 445)\<close>

definition placeholder_image_url :: string where
  "placeholder_image_url = ''https://placehold.co/1024x576/eee/ccc?text=Image+Gen+Error''"

text \<open>\<^verbatim>\<open>len(v)\<close>: defined for a string, a list and a dict.\<close>

fun py_len :: "json \<Rightarrow> exn + nat" where
  "py_len (JStr s) = Inr (length s)"
| "py_len (JList xs) = Inr (length xs)"
| "py_len (JDict d) = Inr (length d)"
| "py_len v = Inl TypeError"

text \<open>
  The body of the \<^verbatim>\<open>try\<close>. The description is whatever the payload held under
  \<^verbatim>\<open>image_description\<close>. \<^verbatim>\<open>description[:300] + "..."\<close> works on a string only: a list cannot be
  added to a string and a dict cannot be sliced. \<open>tick\<close> numbers the moment of the call.
\<close>

definition max_desc_len :: nat where "max_desc_len = 300"

definition image_url_body :: "env \<Rightarrow> nat \<Rightarrow> json \<Rightarrow> string \<Rightarrow> exn + string" where
  "image_url_body E tick description context =
     (case py_len description of
        Inl e \<Rightarrow> Inl e
      | Inr n \<Rightarrow>
          (case (if n > max_desc_len
                 then (case description of
                         JStr s \<Rightarrow> Inr (JStr (take max_desc_len s @ ''...''))
                       | _ \<Rightarrow> Inl TypeError)
                 else Inr description) of
             Inl e \<Rightarrow> Inl e
           | Inr description' \<Rightarrow>
               (let image_prompt =
                      ''Educational illustration: '' @ fmt E description' @ ''. Context: '' @ context
                      @ ''. Style: clean, professional, clear, high resolution.'';
                    encoded_prompt = quote image_prompt;
                    image_url = pollinations_base_url E @ encoded_prompt;
                    cache_buster = unix_time E tick;
                    width = 1024;
                    height = 576
                in Inr (image_url @ ''?width='' @ int_str width @ ''&height='' @ int_str height
                        @ ''&seed='' @ int_str cache_buster @ ''&nologo=true''))))"

definition generate_pollinations_image :: "env \<Rightarrow> nat \<Rightarrow> json \<Rightarrow> string \<Rightarrow> string" where
  "generate_pollinations_image E tick description context =
     (case image_url_body E tick description context of
        Inl e \<Rightarrow> placeholder_image_url
      | Inr image_url \<Rightarrow> image_url)"

subsection \<open>\<^verbatim>\<open>generate_slide_content\<close> (lines 242 to 417)\<close>

text \<open>
  The lookahead of lines 282 to 288. \<^verbatim>\<open>slide_number < len(...)\<close> is evaluated only when the key is
  in the session state; it raises for a value that is not a number, and the index raises for a
  float; \<^verbatim>\<open>next_slide_info.get\<close> raises when the entry is not a dict.
\<close>

definition is_explanation_for_image :: "state \<Rightarrow> json \<Rightarrow> json \<Rightarrow> exn + bool" where
  "is_explanation_for_image st slide_number slide_title =
     (case debug_slide_structure st of
        None \<Rightarrow> Inr False
      | Some structure \<Rightarrow>
          (case as_number slide_number of
             Inl e \<Rightarrow> Inl e
           | Inr r \<Rightarrow>
               if \<not> r < real (length structure) then Inr False
               else (case as_index slide_number of
                       Inl e \<Rightarrow> Inl e
                     | Inr k \<Rightarrow>
                         (case py_index structure k of
                            Inl e \<Rightarrow> Inl e
                          | Inr next_slide_info \<Rightarrow>
                              (case next_slide_info of
                                 JDict d \<Rightarrow>
                                   Inr (py_eq (dict_get d ''slide_title'') slide_title
                                        \<and> dict_get d ''slide_type'' = JStr ''image_slide'')
                               | _ \<Rightarrow> Inl AttributeError)))))"

definition guidance_plain :: string where
  "guidance_plain = ''Explain the core concept clearly and concisely.''"

definition guidance_lead_in :: string where
  "guidance_lead_in = ''This slide explains the concept that will be visualized in the *next* image slide. Focus on setting up the visual explanation. Keep text concise.''"

text \<open>The chain of lines 266 to 378; \<open>n\<close> is the number of requests sent so far.\<close>

definition build_prompt ::
  "env \<Rightarrow> state \<Rightarrow> nat \<Rightarrow> string \<Rightarrow> string \<Rightarrow> json \<Rightarrow> json \<Rightarrow> json \<Rightarrow> exn + string" where
  "build_prompt E st n topic complexity_level slide_number slide_title slide_type =
     (if slide_type = JStr ''title_slide'' then
        Inr (prompt_title E n topic complexity_level slide_title)
      else if slide_type = JStr ''content_slide'' then
        (case is_explanation_for_image st slide_number slide_title of
           Inl e \<Rightarrow> Inl e
         | Inr lead \<Rightarrow>
             (let explanation_guidance = (if lead then guidance_lead_in else guidance_plain)
              in Inr (prompt_content E topic complexity_level slide_number slide_title slide_type
                        explanation_guidance)))
      else if slide_type = JStr ''bullet_point_slide'' then
        Inr (prompt_bullet E topic complexity_level slide_number slide_title slide_type)
      else if slide_type = JStr ''image_slide'' then
        Inr (prompt_image E topic complexity_level slide_number slide_title slide_type)
      else if slide_type = JStr ''conclusion_slide'' then
        Inr (prompt_conclusion E topic complexity_level slide_number slide_title slide_type)
      else Inr (prompt_fallback E topic complexity_level slide_number slide_title slide_type))"

text \<open>The payload of line 398 and the payload the handler of line 413 returns.\<close>

definition error_sentinel :: pydict where
  "error_sentinel =
     [(''main_content'', JList [JStr ''Error: Could not generate content.'']),
      (''needs_image'', JBool False),
      (''error'', JStr ''Failed to generate or parse content'')]"

definition exception_payload :: "env \<Rightarrow> exn \<Rightarrow> pydict" where
  "exception_payload E e =
     [(''main_content'', JList [JStr (''Error generating content: '' @ exn_str E e)]),
      (''needs_image'', JBool False),
      (''error'', JStr (exn_str E e))]"

text \<open>\<^verbatim>\<open>{"slide_number": slide_number, **content}\<close>\<close>

definition debug_entry :: "json \<Rightarrow> pydict \<Rightarrow> pydict" where
  "debug_entry slide_number content =
     foldl (\<lambda>d (k, v). AList.update k v d) [(''slide_number'', slide_number)] content"

text \<open>
  The method returns a payload or raises. An exception before \<^verbatim>\<open>slide_title\<close> is assigned (the
  client cannot be initialised, or \<^verbatim>\<open>slide_info\<close> is not a dict) reaches the handler of line 413,
  whose message reads \<^verbatim>\<open>slide_title\<close>: that raises \<^verbatim>\<open>UnboundLocalError\<close> out of the method. Every
  later exception is answered with \<open>exception_payload\<close>.
\<close>

definition generate_slide_content ::
  "env \<Rightarrow> state \<Rightarrow> json \<Rightarrow> string \<Rightarrow> string \<Rightarrow> (exn + pydict) \<times> state" where
  "generate_slide_content E st slide_info topic complexity_level =
     (case init_groq_client_if_needed E st of
        Inl e \<Rightarrow> (Inl UnboundLocalError, st)
      | Inr st1 \<Rightarrow>
          (case slide_info of
             JDict info \<Rightarrow>
               (let slide_title = dict_get_default info ''slide_title'' (JStr ''Untitled Slide'');
                    slide_type = dict_get_default info ''slide_type'' (JStr ''content_slide'');
                    slide_number = dict_get_default info ''slide_number'' (JInt 0);
                    n = length (sent st1)
                in case build_prompt E st1 n topic complexity_level slide_number slide_title
                          slide_type of
                     Inl e \<Rightarrow> (Inr (exception_payload E e), st1)
                   | Inr prompt \<Rightarrow>
                       (let st2 = st1\<lparr>sent := sent st1 @ [prompt]\<rparr>
                        in case llm E n prompt of
                             Inl e \<Rightarrow> (Inr (exception_payload E e), st2)
                           | Inr result_text \<Rightarrow>
                               (case parse_json_from_response E result_text of
                                  Inl e \<Rightarrow> (Inr (exception_payload E e), st2)
                                | Inr parsed \<Rightarrow>
                                    (let content = (case parsed of
                                                      JDict c \<Rightarrow> if c = [] then error_sentinel else c
                                                    | _ \<Rightarrow> error_sentinel);
                                         content' =
                                           (if truthy (dict_get content ''needs_image'')
                                               \<and> slide_type = JStr ''image_slide''
                                            then (let image_description =
                                                        dict_get_default content ''image_description''
                                                          (JStr (''Illustration for '' @ fmt E slide_title));
                                                      image_url = generate_pollinations_image E n
                                                                    image_description topic
                                                  in AList.update ''image_url'' (JStr image_url) content)
                                            else content);
                                         seen = (case debug_slide_contents st2 of
                                                   None \<Rightarrow> [] | Some xs \<Rightarrow> xs);
                                         st3 = st2\<lparr>debug_slide_contents :=
                                                     Some (seen @ [JDict (debug_entry slide_number content')])\<rparr>
                                     in (Inr content', st3)))))
           | _ \<Rightarrow> (Inl UnboundLocalError, st1)))"

subsection \<open>\<^verbatim>\<open>create_slides_with_content\<close> (lines 448 to 509)\<close>

text \<open>
  Lines 485 to 490, for the slide at index \<open>i\<close> of the loop. \<^verbatim>\<open>1 <= slide_num <= total_slides\<close>
  raises for a value that is not a number; a float in range raises as an index. In the other
  branch the payload goes to index \<open>i\<close> when \<open>i\<close> is inside the array, and is appended otherwise.
  A slot not yet filled is \<^verbatim>\<open>None\<close>.
\<close>

definition place_content ::
  "nat \<Rightarrow> nat \<Rightarrow> json \<Rightarrow> pydict \<Rightarrow> json list \<Rightarrow> exn + json list" where
  "place_content total_slides i slide_num content slide_contents =
     (case as_number slide_num of
        Inl e \<Rightarrow> Inl e
      | Inr r \<Rightarrow>
          if 1 \<le> r \<and> r \<le> real total_slides then
            (case as_index slide_num of
               Inl e \<Rightarrow> Inl e
             | Inr k \<Rightarrow>
                 (case py_index slide_contents (k - 1) of
                    Inl e \<Rightarrow> Inl e
                  | Inr old \<Rightarrow> Inr (slide_contents[nat (k - 1) := JDict content])))
          else if i < length slide_contents then Inr (slide_contents[i := JDict content])
          else Inr (slide_contents @ [JDict content]))"

text \<open>The loop of lines 474 to 490 from index \<open>i\<close> on. It has no handler of its own.\<close>

fun content_loop ::
  "env \<Rightarrow> string \<Rightarrow> string \<Rightarrow> nat \<Rightarrow> nat \<Rightarrow> json list \<Rightarrow> json list \<Rightarrow> state
     \<Rightarrow> (exn + json list) \<times> state" where
  "content_loop E topic complexity_level total_slides i [] slide_contents st =
     (Inr slide_contents, st)"
| "content_loop E topic complexity_level total_slides i (slide_info # rest) slide_contents st =
     (case slide_info of
        JDict info \<Rightarrow>
          (let slide_num = dict_get_default info ''slide_number'' (JInt (int i + 1))
           in case generate_slide_content E st slide_info topic complexity_level of
                (Inl e, st') \<Rightarrow> (Inl e, st')
              | (Inr content, st') \<Rightarrow>
                  (case place_content total_slides i slide_num content slide_contents of
                     Inl e \<Rightarrow> (Inl e, st')
                   | Inr slide_contents' \<Rightarrow>
                       content_loop E topic complexity_level total_slides (Suc i) rest
                         slide_contents' st'))
      | _ \<Rightarrow> (Inl AttributeError, st))"

definition create_slides_with_content ::
  "env \<Rightarrow> state \<Rightarrow> string \<Rightarrow> string \<Rightarrow> string
     \<Rightarrow> (exn + json list \<times> json list) \<times> state" where
  "create_slides_with_content E st topic delivery_medium complexity_level =
     (let st0 = st\<lparr>debug_slide_structure := None, debug_slide_contents := None\<rparr>;
          (slide_structure, st1) =
             generate_slide_structure E st0 topic delivery_medium complexity_level
      in if slide_structure = [] then (Inr ([], []), st1)
         else (let total_slides = length slide_structure
               in case content_loop E topic complexity_level total_slides 0 slide_structure
                         (replicate total_slides JNull) st1 of
                    (Inl e, st') \<Rightarrow> (Inl e, st')
                  | (Inr slide_contents, st') \<Rightarrow>
                      (Inr (slide_structure, filter (\<lambda>c. c \<noteq> JNull) slide_contents), st')))"

section \<open>The deck assembler: \<^verbatim>\<open>create_powerpoint\<close> (lines 512 to 758)\<close>











section \<open>A decoder for concrete examples\<close>

text \<open>
  The theorems below hold for every decoder. Where a concrete run needs one, this is
  \<^verbatim>\<open>json.loads\<close> on the JSON texts made of \<^verbatim>\<open>null\<close>, \<^verbatim>\<open>true\<close>, \<^verbatim>\<open>false\<close>, integers, strings without
  backslash escapes, arrays and objects: whitespace is blank, tab, newline and carriage return;
  text after the value is an error; a repeated key keeps its first place and its last value.
  The strict mode rejects a control character inside a string, the lenient mode accepts it.
  Everything else, a float or an escape too, is answered with \<^verbatim>\<open>JSONDecodeError\<close>. The first argument
  of the three functions bounds the recursion; \<open>sample_loads\<close> starts it longer than twice the text.
\<close>

definition json_ws :: "char \<Rightarrow> bool" where
  "json_ws c = (c \<in> set [CHR 0x20, CHR 0x09, CHR 0x0A, CHR 0x0D])"

definition skip_ws :: "string \<Rightarrow> string" where
  "skip_ws s = dropWhile json_ws s"

definition is_digit :: "char \<Rightarrow> bool" where
  "is_digit c = (c \<in> set ''0123456789'')"

definition digits_val :: "string \<Rightarrow> int" where
  "digits_val ds = foldl (\<lambda>a c. 10 * a + (int (of_char c) - 48)) 0 ds"

definition parse_int :: "string \<Rightarrow> (int \<times> string) option" where
  "parse_int s =
     (let neg = prefix ''-'' s; s1 = (if neg then tl s else s) in
      case s1 of
        [] \<Rightarrow> None
      | c # r \<Rightarrow>
          if \<not> is_digit c then None
          else (let ds = (if c = CHR ''0'' then [c] else takeWhile is_digit s1);
                    rest = drop (length ds) s1 in
                if prefix ''.'' rest \<or> prefix ''e'' rest \<or> prefix ''E'' rest then None
                else Some ((if neg then - digits_val ds else digits_val ds), rest)))"

definition parse_string :: "bool \<Rightarrow> string \<Rightarrow> (string \<times> string) option" where
  "parse_string strict s =
     (let body = takeWhile (\<lambda>c. c \<noteq> CHR 0x22) s; rest = dropWhile (\<lambda>c. c \<noteq> CHR 0x22) s in
      if rest = [] then None
      else if CHR 0x5C \<in> set body then None
      else if strict \<and> (\<exists>c \<in> set body. (of_char c :: nat) < 32) then None
      else Some (body, tl rest))"

fun parse_value :: "bool \<Rightarrow> string \<Rightarrow> string \<Rightarrow> (json \<times> string) option"
and parse_elems :: "bool \<Rightarrow> string \<Rightarrow> string \<Rightarrow> (json list \<times> string) option"
and parse_members :: "bool \<Rightarrow> string \<Rightarrow> string \<Rightarrow> (pydict \<times> string) option" where
  "parse_value strict [] s = None"
| "parse_value strict (f # fuel) s =
     (if prefix ''null'' s then Some (JNull, drop 4 s)
      else if prefix ''true'' s then Some (JBool True, drop 4 s)
      else if prefix ''false'' s then Some (JBool False, drop 5 s)
      else (case s of
              [] \<Rightarrow> None
            | c # r \<Rightarrow>
                if c = CHR 0x22 then
                  (case parse_string strict r of
                     None \<Rightarrow> None
                   | Some (str, r') \<Rightarrow> Some (JStr str, r'))
                else if c = CHR ''['' then
                  (if prefix '']'' (skip_ws r) then Some (JList [], tl (skip_ws r))
                   else (case parse_elems strict fuel (skip_ws r) of
                           None \<Rightarrow> None
                         | Some (vs, r') \<Rightarrow> Some (JList vs, r')))
                else if c = CHR ''{'' then
                  (if prefix ''}'' (skip_ws r) then Some (JDict [], tl (skip_ws r))
                   else (case parse_members strict fuel (skip_ws r) of
                           None \<Rightarrow> None
                         | Some (kvs, r') \<Rightarrow>
                             Some (JDict (foldl (\<lambda>d (k, v). AList.update k v d) [] kvs), r')))
                else (case parse_int s of
                        None \<Rightarrow> None
                      | Some (i, r') \<Rightarrow> Some (JInt i, r'))))"
| "parse_elems strict [] s = None"
| "parse_elems strict (f # fuel) s =
     (case parse_value strict fuel s of
        None \<Rightarrow> None
      | Some (v, r) \<Rightarrow>
          (case skip_ws r of
             [] \<Rightarrow> None
           | c # r' \<Rightarrow>
               if c = CHR '','' then
                 (case parse_elems strict fuel (skip_ws r') of
                    None \<Rightarrow> None
                  | Some (vs, r'') \<Rightarrow> Some (v # vs, r''))
               else if c = CHR '']'' then Some ([v], r')
               else None))"
| "parse_members strict [] s = None"
| "parse_members strict (f # fuel) s =
     (case s of
        [] \<Rightarrow> None
      | q # r \<Rightarrow>
          if q \<noteq> CHR 0x22 then None
          else (case parse_string strict r of
                  None \<Rightarrow> None
                | Some (k, r1) \<Rightarrow>
                    (case skip_ws r1 of
                       [] \<Rightarrow> None
                     | c # r2 \<Rightarrow>
                         if c \<noteq> CHR '':'' then None
                         else (case parse_value strict fuel (skip_ws r2) of
                                 None \<Rightarrow> None
                               | Some (v, r3) \<Rightarrow>
                                   (case skip_ws r3 of
                                      [] \<Rightarrow> None
                                    | c' # r4 \<Rightarrow>
                                        if c' = CHR '','' then
                                          (case parse_members strict fuel (skip_ws r4) of
                                             None \<Rightarrow> None
                                           | Some (kvs, r5) \<Rightarrow> Some ((k, v) # kvs, r5))
                                        else if c' = CHR ''}'' then Some ([(k, v)], r4)
                                        else None)))))"

definition sample_loads :: "bool \<Rightarrow> string \<Rightarrow> exn + json" where
  "sample_loads strict s =
     (case parse_value strict (CHR ''x'' # s @ s) (skip_ws s) of
        None \<Rightarrow> Inl JSONDecodeError
      | Some (v, r) \<Rightarrow> if skip_ws r = [] then Inr v else Inl JSONDecodeError)"

text \<open>
  A world for concrete runs: the decoder above, the client available, the language model
  answering the \<open>n\<close>-th request with \<open>answers ! n\<close> (and raising when the list is too short), ASCII
  lower case, decimal text for an int and the Python names of \<^verbatim>\<open>None\<close>, \<^verbatim>\<open>True\<close> and \<^verbatim>\<open>False\<close>
  (the text of a float, a list or a dict is not needed in the runs below and left empty), the
  message an exception carries, a fixed date and clock, the default image service, and a
  renderer that never raises.
\<close>

definition ascii_lower :: "char \<Rightarrow> char" where
  "ascii_lower c =
     (let n = (of_char c :: nat) in if 65 \<le> n \<and> n \<le> 90 then char_of (n + 32) else c)"

fun sample_str :: "json \<Rightarrow> string" where
  "sample_str JNull = ''None''"
| "sample_str (JBool b) = (if b then ''True'' else ''False'')"
| "sample_str (JInt i) = int_str i"
| "sample_str (JStr s) = s"
| "sample_str v = []"

fun sample_exn_str :: "exn \<Rightarrow> string" where
  "sample_exn_str (ValueError m) = m"
| "sample_exn_str (OtherError m) = m"
| "sample_exn_str e = []"

definition sample_env :: "string list \<Rightarrow> env" where
  "sample_env answers =
     \<lparr>json_loads = sample_loads True,
      json_loads_lenient = sample_loads False,
      api_key_set = True,
      groq_ctor = None,
      llm = (\<lambda>n prompt. if n < length answers then Inr (Some (answers ! n))
                         else Inl (OtherError ''Connection error.'')),
      str_lower = map ascii_lower,
      py_str = sample_str,
      exn_str = sample_exn_str,
      today = (\<lambda>n. ''January 01, 2025''),
      unix_time = (\<lambda>n. 1700000000),
      pollinations_base_url = ''https://image.pollinations.ai/prompt/'',
      fill_slide = (\<lambda>i info c. None)\<rparr>"

section \<open>Notions used in the statements\<close>

subsection \<open>Texts\<close>

text \<open>\<open>first_occurrence m s p\<close>: the text \<open>m\<close> occurs in \<open>s\<close> at offset \<open>p\<close> and at no smaller offset.\<close>

definition first_occurrence :: "string \<Rightarrow> string \<Rightarrow> nat \<Rightarrow> bool" where
  "first_occurrence m s p = (prefix m (drop p s) \<and> (\<forall>q < p. \<not> prefix m (drop q s)))"

text \<open>The two bracket patterns are instances of one shape, and the marker pattern is the start
  marker followed by \<open>after_start\<close>.\<close>

definition pat_span :: "char \<Rightarrow> char \<Rightarrow> rx list" where
  "pat_span opn cls = [GroupOpen, Lit [opn], StarGreedy AnyChar, Lit [cls], GroupClose]"

definition after_start :: "rx list" where
  "after_start = [StarGreedy Space, GroupOpen, StarLazy AnyChar, GroupClose, StarGreedy Space,
                  Lit END_MARK]"

subsection \<open>Descriptors and the batch\<close>

text \<open>
  What the loop of lines 215 to 228 guarantees of every descriptor it keeps: it is a dict with a
  title, its type is one of the five slide types, and its number is an int from 1 on.
\<close>

definition well_typed_descriptor :: "json \<Rightarrow> bool" where
  "well_typed_descriptor d =
     (\<exists>info k s. d = JDict info \<and> map_of info ''slide_number'' = Some (JInt k) \<and> 1 \<le> k
        \<and> has_key info ''slide_title''
        \<and> map_of info ''slide_type'' = Some (JStr s) \<and> s \<in> set valid_slide_types)"

text \<open>The prompt \<^verbatim>\<open>generate_slide_content\<close> builds for a descriptor when \<open>n\<close> requests were sent
  (empty where none is built).\<close>

definition descriptor_prompt :: "env \<Rightarrow> state \<Rightarrow> nat \<Rightarrow> string \<Rightarrow> string \<Rightarrow> json \<Rightarrow> string" where
  "descriptor_prompt E st n topic complexity_level slide_info =
     (case slide_info of
        JDict info \<Rightarrow>
          (case build_prompt E st n topic complexity_level
                  (dict_get_default info ''slide_number'' (JInt 0))
                  (dict_get_default info ''slide_title'' (JStr ''Untitled Slide''))
                  (dict_get_default info ''slide_type'' (JStr ''content_slide'')) of
             Inr prompt \<Rightarrow> prompt
           | Inl e \<Rightarrow> [])
      | _ \<Rightarrow> [])"

text \<open>
  Content generation called once for every descriptor, in order, each call taking the state the
  call before left: the payloads in call order and the final state. It stops at a call that
  raises.
\<close>

fun run_all :: "env \<Rightarrow> string \<Rightarrow> string \<Rightarrow> json list \<Rightarrow> state \<Rightarrow> pydict list \<times> state" where
  "run_all E topic complexity_level [] st = ([], st)"
| "run_all E topic complexity_level (slide_info # rest) st =
     (case generate_slide_content E st slide_info topic complexity_level of
        (Inl e, st') \<Rightarrow> ([], st')
      | (Inr content, st') \<Rightarrow>
          (case run_all E topic complexity_level rest st' of
             (contents, st'') \<Rightarrow> (content # contents, st'')))"

text \<open>
  The index of the result array written for the descriptor at index \<open>i\<close>: its number minus one
  when that number is an int between 1 and the number of slides, and \<open>i\<close> otherwise.
  \<open>place_all\<close> writes the payloads to their indices one after the other, from index \<open>i\<close> on.
\<close>

definition slot :: "nat \<Rightarrow> nat \<Rightarrow> json \<Rightarrow> nat" where
  "slot total_slides i slide_info =
     (case slide_info of
        JDict info \<Rightarrow>
          (case dict_get_default info ''slide_number'' (JInt (int i + 1)) of
             JInt k \<Rightarrow> if 1 \<le> k \<and> k \<le> int total_slides then nat (k - 1) else i
           | _ \<Rightarrow> i)
      | _ \<Rightarrow> i)"

fun place_all :: "nat \<Rightarrow> nat \<Rightarrow> json list \<Rightarrow> pydict list \<Rightarrow> json list \<Rightarrow> json list" where
  "place_all total_slides i (slide_info # rest) (content # contents) slide_contents =
     place_all total_slides (Suc i) rest contents
       (slide_contents[slot total_slides i slide_info := JDict content])"
| "place_all total_slides i rest contents slide_contents = slide_contents"

subsection \<open>The assembler\<close>






subsection \<open>Data of the concrete runs\<close>

definition sample_deck :: "json list" where
  "sample_deck =
     [JDict [(''slide_number'', JInt 1), (''slide_title'', JStr ''Photosynthesis''),
             (''slide_type'', JStr ''title_slide'')],
      JDict [(''slide_number'', JInt 2), (''slide_title'', JStr ''Chloroplast''),
             (''slide_type'', JStr ''content_slide'')],
      JDict [(''slide_number'', JInt 3), (''slide_title'', JStr ''Chloroplast''),
             (''slide_type'', JStr ''image_slide'')],
      JDict [(''slide_number'', JInt 4), (''slide_title'', JStr ''Conclusion''),
             (''slide_type'', JStr ''conclusion_slide'')]]"

definition session_with :: "json list \<Rightarrow> state" where
  "session_with structure =
     \<lparr>groq_client = True, debug_slide_structure = Some structure,
      debug_slide_contents = None, sent = []\<rparr>"

definition structure_answer :: string where
  \<open>structure_answer = ''START OF JSON [{"slide_title": "Cells", "slide_type": "title_slide"}, {"slide_title": "Parts", "slide_type": "bullet_point_slide"}] END OF JSON''\<close>

definition gapped_answer :: string where
  \<open>gapped_answer = ''START OF JSON [{"slide_title": "Intro"}, {"slide_title": "Cells", "slide_type": "title_slide"}, {"slide_title": "Parts", "slide_type": "bullet_point_slide"}] END OF JSON''\<close>

definition lead_in_answer :: string where
  \<open>lead_in_answer = ''START OF JSON [{"slide_title": "Intro"}, {"slide_title": "Chloroplast", "slide_type": "content_slide"}, {"slide_title": "Chloroplast", "slide_type": "image_slide"}] END OF JSON''\<close>


section \<open>Evaluation of concrete runs\<close>

lemmas sample_defs = sample_env_def sample_loads_def skip_ws_def json_ws_def parse_int_def
  parse_string_def is_digit_def digits_val_def

lemmas extract_defs = find_json_text_def re_search_group1_def pat_markers_def pat_object_def
  pat_array_def START_MARK_def END_MARK_def strip_def lstrip_def rstrip_def is_space_def
  startswith_def

section \<open>The extractor never raises\<close>

text \<open>
  Claim C4. For every input string, \<^verbatim>\<open>parse_json_from_response\<close> returns a value and raises
  nothing; the value is a dict or a list. It is the empty dict when no candidate text is found
  (or the candidate is empty), when the body raises any exception, when both decoders reject the
  candidate, and when the decoded value is neither a dict nor a list (a scalar or \<^verbatim>\<open>null\<close>).
\<close>

theorem parse_json_from_response_never_raises:
  "\<exists>v. parse_json_from_response E (Some response_text) = Inr v
       \<and> (is_dict v \<or> is_list v)
       \<and> (find_json_text response_text = None \<or> find_json_text response_text = Some []
            \<longrightarrow> v = JDict [])
       \<and> (\<forall>e. parse_body E response_text = Inl e \<longrightarrow> v = JDict [])
       \<and> (\<forall>json_text. find_json_text response_text = Some json_text
              \<and> json_loads E json_text = Inl JSONDecodeError
              \<and> json_loads_lenient E json_text = Inl JSONDecodeError \<longrightarrow> v = JDict [])
       \<and> (\<forall>u. parse_body E response_text = Inr u \<and> \<not> is_dict u \<and> \<not> is_list u
              \<longrightarrow> v = JDict [])"
  by (auto simp: parse_json_from_response_def parse_body_def Let_def
           split: sum.splits option.splits)

text \<open>A run: the block holds the scalar 42, which the decoder accepts and the extractor rejects.\<close>

theorem parse_json_from_response_never_raises_witness:
  "parse_body (sample_env []) ''START OF JSON 42 END OF JSON'' = Inr (JInt 42)
   \<and> parse_json_from_response (sample_env []) (Some ''START OF JSON 42 END OF JSON'')
       = Inr (JDict [])"
proof -
  have b: "parse_body (sample_env []) ''START OF JSON 42 END OF JSON'' = Inr (JInt 42)"
    by (simp add: parse_body_def extract_defs sample_defs)
  from parse_json_from_response_never_raises
         [of "sample_env []" "''START OF JSON 42 END OF JSON''"] b
  show ?thesis by auto
qed

section \<open>The deck assembler: which payloads become slides\<close>













section \<open>The visual asset resolver\<close>

lemma int_str_1024: "int_str 1024 = ''1024''"
  by (simp add: int_str_def nat_digits.simps)

lemma int_str_576: "int_str 576 = ''576''"
  by (simp add: int_str_def nat_digits.simps)

lemmas image_defs = generate_pollinations_image_def image_url_body_def max_desc_len_def fmt_def
  quote_def quote_char_def quote_safe_def pct_def int_str_def nat_digits.simps
  placeholder_image_url_def

text \<open>
  Claim C9, as the code has it. \<^verbatim>\<open>generate_pollinations_image\<close> raises nothing: an exception of its
  body gives the placeholder reference. A string description longer than 300 characters enters
  the encoded prompt as its first 300 characters followed by \<^verbatim>\<open>...\<close>; a shorter one enters whole.
  The reference returned is the placeholder or ends with
  \<^verbatim>\<open>?width=1024&height=576&seed=<time>&nologo=true\<close>: the seed stands between the height and the
  \<^verbatim>\<open>nologo\<close> flag.
\<close>

theorem generate_pollinations_image_result:
  "(\<forall>e. image_url_body E tick description context = Inl e
        \<longrightarrow> generate_pollinations_image E tick description context = placeholder_image_url)
   \<and> (\<forall>s. description = JStr s \<and> length s > 300
        \<longrightarrow> generate_pollinations_image E tick description context
            = pollinations_base_url E
              @ quote (''Educational illustration: '' @ (take 300 s @ ''...'') @ ''. Context: ''
                       @ context @ ''. Style: clean, professional, clear, high resolution.'')
              @ ''?width=1024&height=576&seed='' @ int_str (unix_time E tick) @ ''&nologo=true'')
   \<and> (\<forall>s. description = JStr s \<and> length s \<le> 300
        \<longrightarrow> generate_pollinations_image E tick description context
            = pollinations_base_url E
              @ quote (''Educational illustration: '' @ s @ ''. Context: ''
                       @ context @ ''. Style: clean, professional, clear, high resolution.'')
              @ ''?width=1024&height=576&seed='' @ int_str (unix_time E tick) @ ''&nologo=true'')
   \<and> (generate_pollinations_image E tick description context = placeholder_image_url
        \<or> suffix (''?width=1024&height=576&seed='' @ int_str (unix_time E tick) @ ''&nologo=true'')
             (generate_pollinations_image E tick description context))"
  by (auto simp: generate_pollinations_image_def image_url_body_def max_desc_len_def Let_def
        fmt_def int_str_1024 int_str_576 suffix_def
      split: sum.splits json.splits)

text \<open>A run with a description of 301 characters.\<close>

theorem generate_pollinations_image_result_witness:
  "generate_pollinations_image (sample_env []) 0 (JStr (replicate 301 CHR ''a'')) ''Sun''
     = ''https://image.pollinations.ai/prompt/'' @
       quote (''Educational illustration: '' @ replicate 300 CHR ''a'' @ ''...'' @ ''. Context: ''
                       @ ''Sun'' @ ''. Style: clean, professional, clear, high resolution.'')
       @ ''?width=1024&height=576&seed=1700000000&nologo=true''"
  using generate_pollinations_image_result
          [of "sample_env []" 0 "JStr (replicate 301 CHR ''a'')" "''Sun''"]
  by (simp add: sample_env_def int_str_def nat_digits.simps)

text \<open>
  Claim C9 as stated fails: the reference returned for a short description does not contain the
  text \<^verbatim>\<open>width=1024&height=576&nologo=true\<close>, and for a description that is \<^verbatim>\<open>None\<close> the placeholder
  is returned, which has no \<^verbatim>\<open>width\<close> parameter at all.
\<close>

theorem size_parameters_counterexample:
  "generate_pollinations_image (sample_env []) 0 (JStr ''A cat'') ''Biology''
     = ''https://image.pollinations.ai/prompt/Educational%20illustration%3A%20A%20cat.%20Context%3A%20Biology.%20Style%3A%20clean%2C%20professional%2C%20clear%2C%20high%20resolution.?width=1024&height=576&seed=1700000000&nologo=true''
   \<and> \<not> sublist ''width=1024&height=576&nologo=true''
         (generate_pollinations_image (sample_env []) 0 (JStr ''A cat'') ''Biology'')
   \<and> generate_pollinations_image (sample_env []) 0 JNull ''Biology''
       = ''https://placehold.co/1024x576/eee/ccc?text=Image+Gen+Error''
   \<and> \<not> sublist ''width=1024''
         (generate_pollinations_image (sample_env []) 0 JNull ''Biology'')"
  by (simp add: image_defs sample_env_def sublist_code)

section \<open>The error sentinel of the content generator\<close>




section \<open>The structure generator\<close>

lemma process_items_well_typed:
  assumes "process_items i xs acc = Inr out" "\<forall>d \<in> set acc. well_typed_descriptor d"
  shows "\<forall>d \<in> set out. well_typed_descriptor d"
  using assms
proof (induction xs arbitrary: i acc)
  case Nil
  then show ?case by simp
next
  case (Cons slide rest)
  show ?case
  proof (cases "\<exists>d. slide = JDict d \<and> has_key d ''slide_title'' \<and> has_key d ''slide_type''")
    case False
    then have "process_items i (slide # rest) acc = process_items (Suc i) rest acc"
      by (cases slide) auto
    with Cons show ?thesis by metis
  next
    case True
    then obtain d where d: "slide = JDict d" "has_key d ''slide_title''" "has_key d ''slide_type''"
      by blast
    from Cons.prems(1) d obtain invalid where
      inv: "not_in_valid_types (dict_get d ''slide_type'') = Inr invalid"
      by (auto split: sum.splits)
    let ?d1 = "if invalid then AList.update ''slide_type'' (JStr ''content_slide'') d else d"
    let ?d2 = "AList.update ''slide_number'' (JInt (int i + 1)) ?d1"
    have run: "process_items (Suc i) rest (acc @ [JDict ?d2]) = Inr out"
      using Cons.prems(1) d inv by (simp add: Let_def)
    have ty: "\<exists>s. map_of ?d1 ''slide_type'' = Some (JStr s) \<and> s \<in> set valid_slide_types"
    proof (cases invalid)
      case True
      then show ?thesis by (simp add: update_conv' valid_slide_types_def)
    next
      case False
      with inv d(3) show ?thesis
        by (auto simp: not_in_valid_types_def dict_get_def has_key_def
                 split: if_splits json.splits option.splits)
    qed
    have "has_key ?d1 ''slide_title''"
      using d(2) by (simp add: has_key_def update_conv')
    with ty have "well_typed_descriptor (JDict ?d2)"
      unfolding well_typed_descriptor_def by (auto simp: update_conv' has_key_def)
    with Cons.prems(2) have "\<forall>x \<in> set (acc @ [JDict ?d2]). well_typed_descriptor x" by simp
    from Cons.IH [OF run this] show ?thesis .
  qed
qed

text \<open>
  Claim C2 holds of the slide types and fails for the numbers. Line 225 numbers a kept element
  with \<open>i + 1\<close>, where \<open>i\<close> counts the elements of the parsed list, the dropped ones too. Here the
  model's list has an element without \<^verbatim>\<open>slide_type\<close> before a valid one: the structure returned has
  one descriptor, at position 1, numbered 2.
\<close>

theorem slide_number_gap:
  \<open>fst (generate_slide_structure
          (sample_env [''START OF JSON [{"slide_title": "Intro"}, {"slide_title": "Cell parts", "slide_type": "content_slide"}] END OF JSON''])
          (init_state (sample_env [])) ''Cells'' ''online'' ''Basic'')
   = [JDict [(''slide_title'', JStr ''Cell parts''), (''slide_type'', JStr ''content_slide''),
             (''slide_number'', JInt 2)]]\<close>
  by (simp add: generate_slide_structure_def init_groq_client_if_needed_def init_state_def
        parse_json_from_response_def parse_body_def extract_defs sample_defs
        not_in_valid_types_def valid_slide_types_def has_key_def dict_get_def)

section \<open>The lookahead of the content generator\<close>

lemma sublist_skip: "sublist g ys \<Longrightarrow> sublist g (xs @ ys)"
  by (metis sublist_append)

lemma prompt_content_contains: "sublist g (prompt_content E topic cl num title ty g)"
  unfolding prompt_content_def
  by ((rule sublist_append_rightI | rule sublist_skip)+)

lemma prompt_content_inj:
  "prompt_content E topic cl num title ty g = prompt_content E topic cl num title ty g' \<Longrightarrow> g = g'"
  unfolding prompt_content_def by simp

lemma guidance_differs: "guidance_lead_in \<noteq> guidance_plain"
  by (simp add: guidance_lead_in_def guidance_plain_def)

lemma lookahead_at_index:
  assumes "debug_slide_structure st = Some structure" "N < length structure"
    and "structure ! N = JDict next_info"
  shows "is_explanation_for_image st (JInt (int N)) title
           = Inr (py_eq (dict_get next_info ''slide_title'') title
                  \<and> dict_get next_info ''slide_type'' = JStr ''image_slide'')"
  using assms by (simp add: is_explanation_for_image_def as_number_def py_index_def)

lemma lookahead_past_end:
  assumes "debug_slide_structure st = Some structure" "length structure \<le> N"
  shows "is_explanation_for_image st (JInt (int N)) title = Inr False"
  using assms by (simp add: is_explanation_for_image_def as_number_def)

lemma content_prompt_sent:
  assumes "groq_client st"
    and "map_of info ''slide_type'' = Some (JStr ''content_slide'')"
    and "map_of info ''slide_number'' = Some num"
    and "map_of info ''slide_title'' = Some title"
    and "is_explanation_for_image st num title = Inr lead"
  shows "sent (snd (generate_slide_content E st (JDict info) topic cl))
           = sent st @ [prompt_content E topic cl num title (JStr ''content_slide'')
                          (if lead then guidance_lead_in else guidance_plain)]"
  using assms
  by (auto simp: generate_slide_content_def init_groq_client_if_needed_def build_prompt_def
        dict_get_default_def Let_def split: sum.splits option.splits)

text \<open>
  Claim C1, as the code has it. Let the session hold a structure in which the descriptor at
  1-based position \<open>N\<close> is a content slide whose \<^verbatim>\<open>slide_number\<close> is \<open>N\<close>, and the descriptor at position \<open>N + 1\<close> (index \<open>N\<close>) is an image slide
  with an equal title. Then the prompt \<^verbatim>\<open>generate_slide_content\<close> sends for descriptor \<open>N\<close> contains
  the lead-in guidance. It differs from the prompt sent for the same descriptor whenever the
  session holds no structure, or a structure that ends at position \<open>N\<close>, or one whose entry at
  index \<open>N\<close> has another title or is not an image slide: the lookahead reads the entry at the
  index equal to the slide's number.
\<close>

theorem content_prompt_lead_in:
  assumes "groq_client st" "debug_slide_structure st = Some structure"
    and "1 \<le> N" "N < length structure"
    and "structure ! (N - 1) = JDict info"
    and "map_of info ''slide_type'' = Some (JStr ''content_slide'')"
    and "map_of info ''slide_number'' = Some (JInt (int N))"
    and "map_of info ''slide_title'' = Some title"
    and "structure ! N = JDict next_info"
    and "py_eq (dict_get next_info ''slide_title'') title"
    and "dict_get next_info ''slide_type'' = JStr ''image_slide''"
  shows "\<exists>prompt.
           sent (snd (generate_slide_content E st (structure ! (N - 1)) topic complexity_level))
             = sent st @ [prompt]
           \<and> sublist guidance_lead_in prompt
           \<and> (\<forall>st'. groq_client st'
                  \<and> (debug_slide_structure st' = None
                     \<or> (\<exists>other. debug_slide_structure st' = Some other
                          \<and> (length other \<le> N
                              \<or> (\<exists>d. N < length other \<and> other ! N = JDict d
                                    \<and> \<not> (py_eq (dict_get d ''slide_title'') title
                                          \<and> dict_get d ''slide_type'' = JStr ''image_slide'')))))
                  \<longrightarrow> (\<exists>prompt'.
                         sent (snd (generate_slide_content E st' (structure ! (N - 1)) topic
                                      complexity_level))
                           = sent st' @ [prompt']
                         \<and> prompt' \<noteq> prompt))"
proof -
  let ?p = "\<lambda>g. prompt_content E topic complexity_level (JInt (int N)) title
                   (JStr ''content_slide'') g"
  have look: "is_explanation_for_image st (JInt (int N)) title = Inr True"
    using lookahead_at_index [OF assms(2,4,9)] assms(10,11) by simp
  have here: "sent (snd (generate_slide_content E st (structure ! (N - 1)) topic complexity_level))
                = sent st @ [?p guidance_lead_in]"
    using content_prompt_sent [OF assms(1,6,7,8) look] assms(5) by simp
  have other: "\<exists>prompt'.
         sent (snd (generate_slide_content E st' (structure ! (N - 1)) topic complexity_level))
           = sent st' @ [prompt'] \<and> prompt' \<noteq> ?p guidance_lead_in"
    if c: "groq_client st'"
      and no: "debug_slide_structure st' = None
               \<or> (\<exists>other. debug_slide_structure st' = Some other
                    \<and> (length other \<le> N
                        \<or> (\<exists>d. N < length other \<and> other ! N = JDict d
                              \<and> \<not> (py_eq (dict_get d ''slide_title'') title
                                    \<and> dict_get d ''slide_type'' = JStr ''image_slide''))))"
    for st'
  proof -
    have "is_explanation_for_image st' (JInt (int N)) title = Inr False"
      using no
    proof (elim disjE exE conjE)
      assume "debug_slide_structure st' = None"
      then show ?thesis by (simp add: is_explanation_for_image_def)
    next
      fix other assume "debug_slide_structure st' = Some other" "length other \<le> N"
      then show ?thesis by (rule lookahead_past_end)
    next
      fix other d
      assume "debug_slide_structure st' = Some other" "N < length other" "other ! N = JDict d"
        "\<not> (py_eq (dict_get d ''slide_title'') title \<and> dict_get d ''slide_type'' = JStr ''image_slide'')"
      then show ?thesis using lookahead_at_index [of st' other N d title] by simp
    qed
    from content_prompt_sent [OF c assms(6,7,8) this]
    have "sent (snd (generate_slide_content E st' (structure ! (N - 1)) topic complexity_level))
            = sent st' @ [?p guidance_plain]"
      using assms(5) by simp
    moreover have "?p guidance_plain \<noteq> ?p guidance_lead_in"
      using prompt_content_inj guidance_differs by metis
    ultimately show ?thesis by blast
  qed
  show ?thesis
    using here prompt_content_contains [of guidance_lead_in] other by blast
qed

text \<open>A run on a deck of four slides; the other state holds the deck cut after its second slide.\<close>

theorem content_prompt_lead_in_witness:
  "\<exists>prompt prompt'.
     sent (snd (generate_slide_content (sample_env []) (session_with sample_deck)
                  (sample_deck ! 1) ''Photosynthesis'' ''Basic'')) = [prompt]
     \<and> sublist guidance_lead_in prompt
     \<and> sent (snd (generate_slide_content (sample_env []) (session_with (take 2 sample_deck))
                    (sample_deck ! 1) ''Photosynthesis'' ''Basic'')) = [prompt']
     \<and> prompt' \<noteq> prompt"
proof -
  let ?info = "[(''slide_number'', JInt 2), (''slide_title'', JStr ''Chloroplast''),
                (''slide_type'', JStr ''content_slide'')]"
  let ?next = "[(''slide_number'', JInt 3), (''slide_title'', JStr ''Chloroplast''),
                (''slide_type'', JStr ''image_slide'')]"
  have "\<exists>prompt.
           sent (snd (generate_slide_content (sample_env []) (session_with sample_deck)
                        (sample_deck ! (2 - 1)) ''Photosynthesis'' ''Basic''))
             = sent (session_with sample_deck) @ [prompt]
           \<and> sublist guidance_lead_in prompt
           \<and> (\<forall>st'. groq_client st'
                  \<and> (debug_slide_structure st' = None
                     \<or> (\<exists>other. debug_slide_structure st' = Some other
                          \<and> (length other \<le> 2
                              \<or> (\<exists>d. 2 < length other \<and> other ! 2 = JDict d
                                    \<and> \<not> (py_eq (dict_get d ''slide_title'') (JStr ''Chloroplast'')
                                          \<and> dict_get d ''slide_type'' = JStr ''image_slide'')))))
                  \<longrightarrow> (\<exists>prompt'.
                         sent (snd (generate_slide_content (sample_env []) st'
                                      (sample_deck ! (2 - 1)) ''Photosynthesis'' ''Basic''))
                           = sent st' @ [prompt']
                         \<and> prompt' \<noteq> prompt))"
    by (rule content_prompt_lead_in [where info = ?info and next_info = ?next])
       (simp_all add: session_with_def sample_deck_def dict_get_def)
  then obtain prompt where p:
      "sent (snd (generate_slide_content (sample_env []) (session_with sample_deck)
                        (sample_deck ! (2 - 1)) ''Photosynthesis'' ''Basic''))
             = sent (session_with sample_deck) @ [prompt]"
      "sublist guidance_lead_in prompt"
      "\<And>st'. groq_client st' \<Longrightarrow> \<exists>other. debug_slide_structure st' = Some other \<and> length other \<le> 2
         \<Longrightarrow> \<exists>prompt'.
                         sent (snd (generate_slide_content (sample_env []) st'
                                      (sample_deck ! (2 - 1)) ''Photosynthesis'' ''Basic''))
                           = sent st' @ [prompt']
                         \<and> prompt' \<noteq> prompt"
    by blast
  from p(3) [of "session_with (take 2 sample_deck)"] obtain prompt' where
      "sent (snd (generate_slide_content (sample_env []) (session_with (take 2 sample_deck))
                        (sample_deck ! (2 - 1)) ''Photosynthesis'' ''Basic''))
             = sent (session_with (take 2 sample_deck)) @ [prompt']" "prompt' \<noteq> prompt"
    by (auto simp: session_with_def)
  with p(1,2) show ?thesis
    by (auto simp: session_with_def)
qed

text \<open>
  Claim C1 as stated fails: the lookahead goes by the slide's number, not by its position. Here
  the structure is the one \<^verbatim>\<open>generate_slide_structure\<close> returns when the model's list starts with an
  element that is dropped: a content slide at position 1, numbered 2, followed by an image slide
  of the same title. The lookahead reads index 2, past the end, and the prompt sent for the
  content slide is the plain one, the same prompt that is sent when no image slide follows.
\<close>

theorem lead_in_by_position_counterexample:
  "fst (generate_slide_structure (sample_env [lead_in_answer]) (init_state (sample_env []))
          ''Photosynthesis'' ''online'' ''Basic'')
     = [JDict [(''slide_title'', JStr ''Chloroplast''), (''slide_type'', JStr ''content_slide''),
               (''slide_number'', JInt 2)],
        JDict [(''slide_title'', JStr ''Chloroplast''), (''slide_type'', JStr ''image_slide''),
               (''slide_number'', JInt 3)]]
   \<and> sent (snd (generate_slide_content (sample_env [lead_in_answer])
                  (snd (generate_slide_structure (sample_env [lead_in_answer])
                          (init_state (sample_env [])) ''Photosynthesis'' ''online'' ''Basic''))
                  (JDict [(''slide_title'', JStr ''Chloroplast''),
                          (''slide_type'', JStr ''content_slide''), (''slide_number'', JInt 2)])
                  ''Photosynthesis'' ''Basic''))
     = sent (snd (generate_slide_structure (sample_env [lead_in_answer])
                    (init_state (sample_env [])) ''Photosynthesis'' ''online'' ''Basic''))
       @ [prompt_content (sample_env [lead_in_answer]) ''Photosynthesis'' ''Basic'' (JInt 2)
            (JStr ''Chloroplast'') (JStr ''content_slide'') guidance_plain]
   \<and> sent (snd (generate_slide_content (sample_env [lead_in_answer])
                  (session_with
                     [JDict [(''slide_title'', JStr ''Chloroplast''),
                             (''slide_type'', JStr ''content_slide''), (''slide_number'', JInt 2)]])
                  (JDict [(''slide_title'', JStr ''Chloroplast''),
                          (''slide_type'', JStr ''content_slide''), (''slide_number'', JInt 2)])
                  ''Photosynthesis'' ''Basic''))
     = [prompt_content (sample_env [lead_in_answer]) ''Photosynthesis'' ''Basic'' (JInt 2)
          (JStr ''Chloroplast'') (JStr ''content_slide'') guidance_plain]"
proof -
  let ?E = "sample_env [lead_in_answer]"
  let ?G = "generate_slide_structure ?E (init_state (sample_env [])) ''Photosynthesis'' ''online''
              ''Basic''"
  let ?info = "[(''slide_title'', JStr ''Chloroplast''), (''slide_type'', JStr ''content_slide''),
                (''slide_number'', JInt 2)]"
  let ?S = "[JDict ?info,
             JDict [(''slide_title'', JStr ''Chloroplast''), (''slide_type'', JStr ''image_slide''),
                    (''slide_number'', JInt 3)]]"
  have S: "fst ?G = ?S"
    by (simp add: generate_slide_structure_def init_groq_client_if_needed_def init_state_def
          parse_json_from_response_def parse_body_def extract_defs sample_defs
          not_in_valid_types_def valid_slide_types_def has_key_def dict_get_def lead_in_answer_def)
  have st: "groq_client (snd ?G) \<and> debug_slide_structure (snd ?G) = Some ?S"
    by (simp add: generate_slide_structure_def init_groq_client_if_needed_def init_state_def
          parse_json_from_response_def parse_body_def extract_defs sample_defs
          not_in_valid_types_def valid_slide_types_def has_key_def dict_get_def lead_in_answer_def)
  have look: "is_explanation_for_image (snd ?G) (JInt 2) (JStr ''Chloroplast'') = Inr False"
    using st by (simp add: is_explanation_for_image_def as_number_def)
  have one: "sent (snd (generate_slide_content ?E (snd ?G) (JDict ?info) ''Photosynthesis'' ''Basic''))
      = sent (snd ?G) @ [prompt_content ?E ''Photosynthesis'' ''Basic'' (JInt 2)
            (JStr ''Chloroplast'') (JStr ''content_slide'') (if False then guidance_lead_in else guidance_plain)]"
    by (rule content_prompt_sent [OF _ _ _ _ look]) (use st in simp_all)
  have look2: "is_explanation_for_image (session_with [JDict ?info]) (JInt 2) (JStr ''Chloroplast'')
                 = Inr False"
    by (simp add: is_explanation_for_image_def as_number_def session_with_def)
  have two: "sent (snd (generate_slide_content ?E (session_with [JDict ?info]) (JDict ?info)
                     ''Photosynthesis'' ''Basic''))
      = sent (session_with [JDict ?info]) @ [prompt_content ?E ''Photosynthesis'' ''Basic'' (JInt 2)
            (JStr ''Chloroplast'') (JStr ''content_slide'') (if False then guidance_lead_in else guidance_plain)]"
    by (rule content_prompt_sent [OF _ _ _ _ look2]) (simp_all add: session_with_def)
  show ?thesis
    using S one two by (simp add: session_with_def)
qed

section \<open>What the three searches of the extractor find\<close>

subsection \<open>A pattern matches only where its literals occur\<close>

lemma sublist_skip': "sublist l ys \<Longrightarrow> sublist l (xs @ ys)"
  by (metis sublist_append)

lemma sublist_drop: "sublist l (drop n s) \<Longrightarrow> sublist l s"
  by (metis append_take_drop_id sublist_skip')

lemma rx_match_lit:
  "rx_match ps s pos gs ge = Some r \<Longrightarrow> Lit l \<in> set ps \<Longrightarrow> sublist l s"
proof (induction ps s pos gs ge rule: rx_match.induct)
  case (2 l' ps s pos gs ge)
  then show ?case
    by (auto split: if_splits intro: sublist_drop)
next
  case (6 c ps x xs pos gs ge)
  then show ?case
    by (auto split: if_splits option.splits simp: sublist_Cons_right)
next
  case (8 c ps x xs pos gs ge)
  then show ?case
    by (auto split: if_splits option.splits simp: sublist_Cons_right)
qed auto

lemma rx_search_lit:
  "rx_search_from ps s pos = Some r \<Longrightarrow> Lit l \<in> set ps \<Longrightarrow> sublist l s"
proof (induction s arbitrary: pos)
  case Nil
  then show ?case using rx_match_lit by fastforce
next
  case (Cons x xs)
  then show ?case
    by (auto split: option.splits simp: sublist_Cons_right dest: rx_match_lit)
qed

lemma no_marker_no_match:
  "\<not> sublist START_MARK text \<or> \<not> sublist END_MARK text
     \<Longrightarrow> re_search_group1 pat_markers text = None"
proof -
  assume a: "\<not> sublist START_MARK text \<or> \<not> sublist END_MARK text"
  have "rx_search_from pat_markers text 0 = None"
  proof (cases "rx_search_from pat_markers text 0")
    case (Some r)
    then have "sublist START_MARK text" "sublist END_MARK text"
      by (auto intro!: rx_search_lit [OF Some] simp: pat_markers_def)
    with a show ?thesis by blast
  qed simp
  then show ?thesis by (simp add: re_search_group1_def)
qed

subsection \<open>The patterns \<^verbatim>\<open>({.*})\<close> and \<^verbatim>\<open>(\[[\s\S]*\])\<close>\<close>

text \<open>Both are an opening character, a greedy run of any characters and a closing character:
  the match starts at the first opening character and ends at the last closing one.\<close>

lemma greedy_close_none:
  "c \<notin> set s \<Longrightarrow> rx_match [StarGreedy AnyChar, Lit [c], GroupClose] s pos gs ge = None"
  by (induction s arbitrary: pos) auto

lemma greedy_close_last:
  "c \<notin> set post \<Longrightarrow>
   rx_match [StarGreedy AnyChar, Lit [c], GroupClose] (mid @ c # post) pos gs ge
     = Some (gs, pos + length mid + 1)"
proof (induction mid arbitrary: pos)
  case Nil
  then show ?case by (simp add: greedy_close_none)
next
  case (Cons m ms)
  then show ?case by simp
qed

lemma greedy_close_some:
  "rx_match [StarGreedy AnyChar, Lit [c], GroupClose] s pos gs ge = Some r \<Longrightarrow> c \<in> set s"
  using greedy_close_none by fastforce

lemma span_search:
  assumes "opn \<notin> set pre" "cls \<notin> set post"
  shows "rx_search_from (pat_span opn cls) (pre @ opn # mid @ cls # post) pos
           = Some (pos + length pre, pos + length pre + length mid + 2)"
  using assms(1)
proof (induction pre arbitrary: pos)
  case Nil
  then show ?case
    using greedy_close_last [OF assms(2), where mid = mid] by (simp add: pat_span_def)
next
  case (Cons x xs)
  then show ?case by (simp add: pat_span_def)
qed

lemma span_group:
  assumes "opn \<notin> set pre" "cls \<notin> set post"
  shows "re_search_group1 (pat_span opn cls) (pre @ opn # mid @ cls # post)
           = Some (opn # mid @ [cls])"
  using span_search [OF assms, of mid 0] by (simp add: re_search_group1_def)

lemma span_match_shape:
  "rx_match (pat_span opn cls) s pos gs ge = Some r \<Longrightarrow> \<exists>mid post. s = opn # mid @ cls # post"
proof -
  assume m: "rx_match (pat_span opn cls) s pos gs ge = Some r"
  then obtain t where s: "s = opn # t"
    and t: "rx_match [StarGreedy AnyChar, Lit [cls], GroupClose] t (pos + 1) pos ge = Some r"
    by (cases s) (auto simp: pat_span_def split: if_splits)
  from greedy_close_some [OF t] obtain mid post where "t = mid @ cls # post"
    by (meson split_list)
  with s show ?thesis by blast
qed

lemma span_search_shape:
  "rx_search_from (pat_span opn cls) s pos = Some r
     \<Longrightarrow> \<exists>pre mid post. s = pre @ opn # mid @ cls # post"
proof (induction s arbitrary: pos)
  case Nil
  then show ?case using span_match_shape by fastforce
next
  case (Cons x xs)
  show ?case
  proof (cases "rx_match (pat_span opn cls) (x # xs) pos 0 0")
    case None
    with Cons.prems have "rx_search_from (pat_span opn cls) xs (Suc pos) = Some r" by simp
    from Cons.IH [OF this] obtain pre mid post where "xs = pre @ opn # mid @ cls # post" by blast
    then have "x # xs = (x # pre) @ opn # mid @ cls # post" by simp
    then show ?thesis by blast
  next
    case (Some a)
    from span_match_shape [OF this] show ?thesis by (metis append_Nil)
  qed
qed

lemma no_span_no_match:
  "\<not> (\<exists>pre mid post. text = pre @ opn # mid @ cls # post)
     \<Longrightarrow> re_search_group1 (pat_span opn cls) text = None"
  using span_search_shape [of opn cls "text" 0]
  by (cases "rx_search_from (pat_span opn cls) text 0") (auto simp: re_search_group1_def)

lemma pat_object_span: "pat_object = pat_span CHR ''{'' CHR ''}''"
  and pat_array_span: "pat_array = pat_span CHR ''['' CHR '']''"
  by (simp_all add: pat_object_def pat_array_def pat_span_def)

subsection \<open>The marker pattern\<close>

lemma first_occurrence_Suc:
  "first_occurrence m (x # xs) (Suc p) \<Longrightarrow> first_occurrence m xs p"
  unfolding first_occurrence_def
  by (metis Suc_less_eq drop_Suc_Cons)

lemma END_not_space: "prefix END_MARK (x # xs) \<Longrightarrow> \<not> is_space x"
  by (auto simp: END_MARK_def is_space_def)

lemma END_nonempty: "\<not> prefix END_MARK []"
  by (simp add: END_MARK_def)

lemma prefix_END_dropWhile: "prefix END_MARK s \<Longrightarrow> dropWhile is_space s = s"
  by (cases s) (auto simp: END_nonempty dest: END_not_space)

text \<open>The tail of the pattern, \<^verbatim>\<open>\s*END OF JSON\<close>.\<close>

lemma tail_match:
  "rx_match [StarGreedy Space, Lit END_MARK] s pos gs ge
     = (if prefix END_MARK (dropWhile is_space s) then Some (gs, ge) else None)"
proof (induction s arbitrary: pos)
  case Nil
  then show ?case by (simp add: END_nonempty)
next
  case (Cons x xs)
  then show ?case
    using END_not_space [of x xs] by auto
qed

lemma rstrip_all_space: "\<forall>c \<in> set s. is_space c \<Longrightarrow> rstrip s = []"
  by (simp add: rstrip_def)

lemma rstrip_Cons:
  "\<not> (\<forall>c \<in> set (x # ys). is_space c) \<Longrightarrow> rstrip (x # ys) = x # rstrip ys"
proof -
  assume a: "\<not> (\<forall>c \<in> set (x # ys). is_space c)"
  show ?thesis
  proof (cases "\<forall>c \<in> set ys. is_space c")
    case True
    with a have x: "\<not> is_space x" by auto
    have "dropWhile is_space (rev ys @ [x]) = dropWhile is_space [x]"
      by (rule dropWhile_append2) (use True in auto)
    moreover have "dropWhile is_space (rev ys) = []"
      using True by simp
    ultimately show ?thesis using x by (simp add: rstrip_def)
  next
    case False
    then obtain c where "c \<in> set (rev ys)" "\<not> is_space c" by auto
    then have "dropWhile is_space (rev ys @ [x]) = dropWhile is_space (rev ys) @ [x]"
      by (rule dropWhile_append1)
    then show ?thesis by (simp add: rstrip_def)
  qed
qed

lemma all_space_dropWhile:
  "\<forall>c \<in> set (take e u). is_space c \<Longrightarrow> dropWhile is_space u = dropWhile is_space (drop e u)"
proof -
  assume a: "\<forall>c \<in> set (take e u). is_space c"
  have "dropWhile is_space (take e u @ drop e u) = dropWhile is_space (drop e u)"
    by (rule dropWhile_append2) (use a in auto)
  then show ?thesis by simp
qed

lemma close_tail:
  "rx_match [GroupClose, StarGreedy Space, Lit END_MARK] s pos gs ge
     = (if prefix END_MARK (dropWhile is_space s) then Some (gs, pos) else None)"
  by (simp add: tail_match)

lemma lazy_step:
  "rx_match (StarLazy AnyChar # ps) (x # xs) pos gs ge
     = (case rx_match ps (x # xs) pos gs ge of
          Some r \<Rightarrow> Some r
        | None \<Rightarrow> rx_match (StarLazy AnyChar # ps) xs (Suc pos) gs ge)"
  by simp

lemma greedy_space_skip:
  "\<not> is_space x \<Longrightarrow>
   rx_match (StarGreedy Space # ps) (x # xs) pos gs ge = rx_match ps (x # xs) pos gs ge"
  by simp

lemma greedy_space_take:
  "is_space x \<Longrightarrow> rx_match (StarGreedy Space # ps) xs (Suc pos) gs ge = Some r \<Longrightarrow>
   rx_match (StarGreedy Space # ps) (x # xs) pos gs ge = Some r"
  by simp

text \<open>The lazy group followed by the tail: the group ends where the trailing blanks before the
  first end marker begin.\<close>

lemma lazy_group:
  assumes "first_occurrence END_MARK u e"
  shows "rx_match [StarLazy AnyChar, GroupClose, StarGreedy Space, Lit END_MARK] u pos gs ge
           = Some (gs, pos + length (rstrip (take e u)))"
  using assms
proof (induction u arbitrary: e pos)
  case Nil
  then show ?case by (simp add: first_occurrence_def END_MARK_def)
next
  case (Cons x xs)
  have occ: "prefix END_MARK (drop e (x # xs))"
    using Cons.prems by (simp add: first_occurrence_def)
  show ?case
  proof (cases "prefix END_MARK (dropWhile is_space (x # xs))")
    case True
    have sp: "\<forall>c \<in> set (take e (x # xs)). is_space c"
    proof (rule ccontr)
      assume "\<not> (\<forall>c \<in> set (take e (x # xs)). is_space c)"
      then obtain i where i: "i < e" "i < length (x # xs)" "\<not> is_space ((x # xs) ! i)"
        by (auto simp: in_set_conv_nth)
      let ?n = "length (takeWhile is_space (x # xs))"
      have "?n \<le> i"
        using i(3) by (metis linorder_not_less nth_mem set_takeWhileD takeWhile_nth)
      moreover have "prefix END_MARK (drop ?n (x # xs))"
        using True by (simp add: dropWhile_eq_drop)
      ultimately show False
        using Cons.prems i(1) by (auto simp: first_occurrence_def)
    qed
    then have r: "rstrip (take e (x # xs)) = []" by (rule rstrip_all_space)
    have "rx_match [GroupClose, StarGreedy Space, Lit END_MARK] (x # xs) pos gs ge = Some (gs, pos)"
      using True by (simp only: close_tail if_True)
    then have "rx_match [StarLazy AnyChar, GroupClose, StarGreedy Space, Lit END_MARK] (x # xs) pos gs ge
                 = Some (gs, pos)"
      by (simp only: lazy_step option.case)
    with r show ?thesis by simp
  next
    case False
    have e0: "e \<noteq> 0"
    proof
      assume "e = 0"
      with occ have "prefix END_MARK (x # xs)" by simp
      then have "dropWhile is_space (x # xs) = x # xs" by (rule prefix_END_dropWhile)
      with False \<open>prefix END_MARK (x # xs)\<close> show False by simp
    qed
    then obtain e' where e': "e = Suc e'" by (cases e) auto
    have nsp: "\<not> (\<forall>c \<in> set (x # take e' xs). is_space c)"
    proof
      assume "\<forall>c \<in> set (x # take e' xs). is_space c"
      then have "\<forall>c \<in> set (take e (x # xs)). is_space c" by (simp add: e')
      then have "dropWhile is_space (x # xs) = dropWhile is_space (drop e (x # xs))"
        by (rule all_space_dropWhile)
      also have "\<dots> = drop e (x # xs)" using occ by (rule prefix_END_dropWhile)
      finally show False using False occ by simp
    qed
    have IH: "rx_match [StarLazy AnyChar, GroupClose, StarGreedy Space, Lit END_MARK] xs (Suc pos) gs ge
           = Some (gs, Suc pos + length (rstrip (take e' xs)))"
      using Cons.IH [OF first_occurrence_Suc] Cons.prems e' by blast
    have "rx_match [GroupClose, StarGreedy Space, Lit END_MARK] (x # xs) pos gs ge = None"
      using False by (simp only: close_tail if_False)
    then have "rx_match [StarLazy AnyChar, GroupClose, StarGreedy Space, Lit END_MARK] (x # xs) pos gs ge
                 = Some (gs, Suc pos + length (rstrip (take e' xs)))"
      by (simp only: lazy_step option.case IH)
    moreover have "rstrip (take e (x # xs)) = x # rstrip (take e' xs)"
      using rstrip_Cons [OF nsp] by (simp add: e')
    ultimately show ?thesis by simp
  qed
qed

lemma take_rstrip: "take (length (rstrip (take e s))) s = rstrip (take e s)"
proof -
  have "prefix (rstrip (take e s)) (take e s)"
    unfolding rstrip_def
    by (metis append_take_drop_id dropWhile_eq_drop prefixI rev_append rev_rev_ident
          suffix_def suffix_dropWhile suffix_to_prefix)
  then have "prefix (rstrip (take e s)) s"
    using take_is_prefix prefix_order.trans by blast
  then show ?thesis
    by (metis append_eq_conv_conj prefixE)
qed

text \<open>What follows the start marker, \<^verbatim>\<open>\s*([\s\S]*?)\s*END OF JSON\<close>.\<close>

lemma strip_space_Cons: "is_space x \<Longrightarrow> strip (x # s) = strip s"
  by (simp add: strip_def lstrip_def)

lemma strip_no_lead: "s = [] \<or> \<not> is_space (hd s) \<Longrightarrow> strip s = rstrip s"
  by (cases s) (auto simp: strip_def lstrip_def)

lemma after_start_match:
  assumes "first_occurrence END_MARK s e"
  shows "\<exists>b k. rx_match after_start s pos gs ge = Some (pos + b, pos + b + k)
               \<and> take k (drop b s) = strip (take e s)"
  using assms
proof (induction s arbitrary: e pos)
  case Nil
  then show ?case by (simp add: first_occurrence_def END_MARK_def)
next
  case (Cons x xs)
  show ?case
  proof (cases "is_space x")
    case True
    have "e \<noteq> 0"
      using Cons.prems True END_not_space [of x xs] by (cases e) (auto simp: first_occurrence_def)
    then obtain e' where e': "e = Suc e'" by (cases e) auto
    from Cons.IH [OF first_occurrence_Suc, where e = e' and pos = "Suc pos"] Cons.prems e'
    obtain b k where bk: "rx_match after_start xs (Suc pos) gs ge = Some (Suc pos + b, Suc pos + b + k)"
      "take k (drop b xs) = strip (take e' xs)" by blast
    have "rx_match after_start (x # xs) pos gs ge = Some (pos + Suc b, pos + Suc b + k)"
      unfolding after_start_def
      by (rule greedy_space_take [OF True]) (use bk(1) in \<open>simp add: after_start_def\<close>)
    moreover have "take k (drop (Suc b) (x # xs)) = strip (take e (x # xs))"
      using bk(2) True by (simp add: e' strip_space_Cons)
    ultimately show ?thesis by blast
  next
    case False
    have "rx_match after_start (x # xs) pos gs ge
            = rx_match [GroupOpen, StarLazy AnyChar, GroupClose, StarGreedy Space, Lit END_MARK]
                (x # xs) pos gs ge"
      unfolding after_start_def using False by (rule greedy_space_skip)
    also have "\<dots> = rx_match [StarLazy AnyChar, GroupClose, StarGreedy Space, Lit END_MARK]
                (x # xs) pos pos ge"
      by (rule rx_match.simps(3))
    also have "\<dots> = Some (pos, pos + length (rstrip (take e (x # xs))))"
      by (rule lazy_group [OF Cons.prems])
    finally have "rx_match after_start (x # xs) pos gs ge
            = Some (pos, pos + length (rstrip (take e (x # xs))))" .
    moreover have "take (length (rstrip (take e (x # xs)))) (drop 0 (x # xs)) = strip (take e (x # xs))"
    proof -
      have "take e (x # xs) = [] \<or> \<not> is_space (hd (take e (x # xs)))"
        using False by (cases e) simp_all
      then have "strip (take e (x # xs)) = rstrip (take e (x # xs))" by (rule strip_no_lead)
      then show ?thesis by (simp only: drop_0 take_rstrip)
    qed
    ultimately show ?thesis by (metis add.right_neutral)
  qed
qed

lemma pat_markers_split: "pat_markers = Lit START_MARK # after_start"
  by (simp add: pat_markers_def after_start_def)

lemma search_here:
  "rx_match ps t pos 0 0 = Some r \<Longrightarrow> rx_search_from ps t pos = Some r"
  by (cases t) simp_all

lemma search_next:
  "rx_match ps (x # xs) pos 0 0 = None
     \<Longrightarrow> rx_search_from ps (x # xs) pos = rx_search_from ps xs (Suc pos)"
  by simp

lemma marker_search:
  assumes "first_occurrence START_MARK (pre @ START_MARK @ s) (length pre)"
    and "first_occurrence END_MARK s e"
  shows "\<exists>b k. rx_search_from pat_markers (pre @ START_MARK @ s) pos
                 = Some (pos + length pre + length START_MARK + b,
                         pos + length pre + length START_MARK + b + k)
               \<and> take k (drop b s) = strip (take e s)"
  using assms(1)
proof (induction pre arbitrary: pos)
  case Nil
  from after_start_match [OF assms(2), of "pos + length START_MARK" 0 0]
  obtain b k where bk:
      "rx_match after_start s (pos + length START_MARK) 0 0
         = Some (pos + length START_MARK + b, pos + length START_MARK + b + k)"
      "take k (drop b s) = strip (take e s)" by blast
  have "rx_match pat_markers (START_MARK @ s) pos 0 0
          = rx_match after_start s (pos + length START_MARK) 0 0"
    by (simp add: pat_markers_split)
  with bk(1) have "rx_search_from pat_markers (START_MARK @ s) pos
          = Some (pos + length START_MARK + b, pos + length START_MARK + b + k)"
    by (intro search_here) simp
  with bk(2) show ?case by auto
next
  case (Cons x xs)
  have "\<not> prefix START_MARK (x # xs @ START_MARK @ s)"
    using Cons.prems by (auto simp: first_occurrence_def)
  then have "rx_match pat_markers (x # xs @ START_MARK @ s) pos 0 0 = None"
    by (simp add: pat_markers_split)
  then have step: "rx_search_from pat_markers ((x # xs) @ START_MARK @ s) pos
               = rx_search_from pat_markers (xs @ START_MARK @ s) (Suc pos)"
    using search_next by simp
  have "first_occurrence START_MARK (xs @ START_MARK @ s) (length xs)"
    using Cons.prems first_occurrence_Suc by simp
  from Cons.IH [OF this, of "Suc pos"] show ?case
    unfolding step by simp
qed

lemma marker_group:
  assumes "first_occurrence START_MARK (pre @ START_MARK @ mid @ END_MARK @ post) (length pre)"
    and "first_occurrence END_MARK (mid @ END_MARK @ post) (length mid)"
  shows "re_search_group1 pat_markers (pre @ START_MARK @ mid @ END_MARK @ post)
           = Some (strip mid)"
proof -
  let ?s = "mid @ END_MARK @ post"
  from marker_search [OF assms, of 0] obtain b k where bk:
    "rx_search_from pat_markers (pre @ START_MARK @ ?s) 0
       = Some (length pre + length START_MARK + b, length pre + length START_MARK + b + k)"
    "take k (drop b ?s) = strip (take (length mid) ?s)" by auto
  have "drop (length pre + length START_MARK + b) (pre @ START_MARK @ ?s) = drop b ?s"
    by (simp add: add.commute)
  with bk show ?thesis
    by (simp add: re_search_group1_def)
qed

lemma rstrip_prefix: "prefix (rstrip y) y"
  unfolding rstrip_def
  by (metis rev_rev_ident suffix_dropWhile suffix_to_prefix)

lemma strip_idem: "strip (strip x) = strip x"
proof -
  let ?y = "lstrip x"
  have l: "lstrip (rstrip ?y) = rstrip ?y"
  proof (cases "rstrip ?y")
    case Nil
    then show ?thesis by (simp add: lstrip_def)
  next
    case (Cons a as)
    with rstrip_prefix [of ?y] have y: "?y \<noteq> []" "hd ?y = a"
      by (auto simp: prefix_def)
    then have "\<not> is_space a"
      unfolding lstrip_def using hd_dropWhile by metis
    with Cons show ?thesis by (simp add: lstrip_def)
  qed
  have r: "rstrip (rstrip ?y) = rstrip ?y"
    by (simp add: rstrip_def)
  show ?thesis
    by (simp only: strip_def l r)
qed

text \<open>
  Claim C5, as the code has it. Let the text hold a block: the start marker, an interior, the end
  marker. When that start marker is the first \<^verbatim>\<open>START OF JSON\<close> of the text, that end marker is the
  first \<^verbatim>\<open>END OF JSON\<close> after it, and the trimmed interior is non-empty and decodes (strictly) to a
  dict or a list, the extractor takes the trimmed interior as its candidate and returns the
  decoded value, whatever stands before the block (short of another start marker) and after it.
\<close>

theorem marker_block_extraction:
  assumes "text = pre @ START_MARK @ mid @ END_MARK @ post"
    and "first_occurrence START_MARK text (length pre)"
    and "first_occurrence END_MARK (mid @ END_MARK @ post) (length mid)"
    and "strip mid \<noteq> []"
    and "json_loads E (strip mid) = Inr v" and "is_dict v \<or> is_list v"
  shows "find_json_text text = Some (strip mid)
         \<and> parse_json_from_response E (Some text) = Inr v"
proof -
  have "re_search_group1 pat_markers text = Some (strip mid)"
    using marker_group assms(1,2,3) by simp
  then have f: "find_json_text text = Some (strip mid)"
    by (simp add: find_json_text_def strip_idem)
  with assms(4,5,6) show ?thesis
    by (auto simp: parse_json_from_response_def parse_body_def)
qed

text \<open>A run with prose on both sides and blanks inside the block.\<close>

theorem marker_block_extraction_witness:
  "parse_json_from_response (sample_env [])
     (Some ''Sure! START OF JSON  [1, 2]  END OF JSON Bye'') = Inr (JList [JInt 1, JInt 2])"
proof -
  let ?text = "''Sure! START OF JSON  [1, 2]  END OF JSON Bye''"
  have e: "?text = ''Sure! '' @ START_MARK @ ''  [1, 2]  '' @ END_MARK @ '' Bye''"
    by (simp add: START_MARK_def END_MARK_def)
  have f1: "first_occurrence START_MARK ?text (length ''Sure! '')"
    by (simp add: first_occurrence_def START_MARK_def All_less_Suc)
  have f2: "first_occurrence END_MARK (''  [1, 2]  '' @ END_MARK @ '' Bye'') (length ''  [1, 2]  '')"
    by (simp add: first_occurrence_def END_MARK_def All_less_Suc)
  have s: "strip ''  [1, 2]  '' = ''[1, 2]''"
    by (simp add: strip_def lstrip_def rstrip_def is_space_def)
  have d: "json_loads (sample_env []) (strip ''  [1, 2]  '') = Inr (JList [JInt 1, JInt 2])"
    unfolding s by (simp add: sample_defs)
  have n: "strip ''  [1, 2]  '' \<noteq> []" unfolding s by simp
  from marker_block_extraction [OF e f1 f2 n d] show ?thesis by simp
qed

text \<open>
  Claim C5 as stated fails: prose before the block that itself names the two markers makes the
  search start there. The candidate is the word between the first two markers, no decoder accepts
  it, and the extractor returns the empty dict although the block holds the list \<^verbatim>\<open>[1]\<close>.
\<close>

theorem marker_block_counterexample:
  "parse_json_from_response (sample_env [])
     (Some ''Between START OF JSON and END OF JSON: START OF JSON [1] END OF JSON'')
     = Inr (JDict [])
   \<and> find_json_text ''Between START OF JSON and END OF JSON: START OF JSON [1] END OF JSON''
     = Some ''and''
   \<and> json_loads (sample_env []) ''[1]'' = Inr (JList [JInt 1])"
  by (simp add: parse_json_from_response_def parse_body_def extract_defs sample_defs)

subsection \<open>Embedded spans\<close>

lemma not_space_brackets:
  "\<not> is_space CHR ''{''" "\<not> is_space CHR ''}''" "\<not> is_space CHR ''[''" "\<not> is_space CHR '']''"
  by (simp_all add: is_space_def)

lemma strip_bracketed:
  "\<not> is_space a \<Longrightarrow> \<not> is_space b \<Longrightarrow> strip (a # mid @ [b]) = a # mid @ [b]"
  by (simp add: strip_def lstrip_def rstrip_def)

lemma find_json_text_object:
  assumes "\<not> sublist START_MARK text \<or> \<not> sublist END_MARK text"
    and "\<not> startswith (strip text) ''{''" and "\<not> startswith (strip text) ''[''"
    and "text = pre @ ''{'' @ mid @ ''}'' @ post" "CHR ''{'' \<notin> set pre" "CHR ''}'' \<notin> set post"
  shows "find_json_text text = Some (''{'' @ mid @ ''}'')"
proof -
  have "re_search_group1 pat_object text = Some (CHR ''{'' # mid @ [CHR ''}''])"
    using span_group [OF assms(5,6), of mid] assms(4) by (simp add: pat_object_span)
  then show ?thesis
    using no_marker_no_match [OF assms(1)] assms(2,3)
    by (simp add: find_json_text_def Let_def strip_bracketed not_space_brackets)
qed

lemma find_json_text_array:
  assumes "\<not> sublist START_MARK text \<or> \<not> sublist END_MARK text"
    and "\<not> startswith (strip text) ''{''" and "\<not> startswith (strip text) ''[''"
    and "\<not> (\<exists>a b c. text = a @ ''{'' @ b @ ''}'' @ c)"
    and "text = pre @ ''['' @ mid @ '']'' @ post" "CHR ''['' \<notin> set pre" "CHR '']'' \<notin> set post"
  shows "find_json_text text = Some (''['' @ mid @ '']'')"
proof -
  have "re_search_group1 pat_object text = None"
    unfolding pat_object_span using assms(4) by (intro no_span_no_match) simp
  moreover have "re_search_group1 pat_array text = Some (CHR ''['' # mid @ [CHR '']''])"
    using span_group [OF assms(6,7), of mid] assms(5) by (simp add: pat_array_span)
  ultimately show ?thesis
    using no_marker_no_match [OF assms(1)] assms(2,3)
    by (simp add: find_json_text_def Let_def strip_bracketed not_space_brackets)
qed

lemma parse_of_candidate:
  assumes "find_json_text text = Some json_text" "json_text \<noteq> []"
    and "json_loads E json_text = Inr v" "is_dict v \<or> is_list v"
  shows "parse_json_from_response E (Some text) = Inr v"
  using assms by (auto simp: parse_json_from_response_def parse_body_def)

text \<open>
  Claim C6, as the code has it. Let the text hold no pair of markers and not begin, once trimmed,
  with a brace or a bracket. The candidate is the span from the first \<^verbatim>\<open>{\<close> to the last \<^verbatim>\<open>}\<close> of the
  text; only when the text has no \<^verbatim>\<open>{\<close> with a \<^verbatim>\<open>}\<close> after it, the candidate is the span from the
  first \<^verbatim>\<open>[\<close> to the last \<^verbatim>\<open>]\<close>. When that span decodes (strictly) to a dict or a list, the extractor
  returns the decoded value.
\<close>

theorem embedded_span_extraction:
  assumes "\<not> sublist START_MARK text \<or> \<not> sublist END_MARK text"
    and "\<not> startswith (strip text) ''{''" and "\<not> startswith (strip text) ''[''"
  shows "(\<forall>pre mid post v.
            text = pre @ ''{'' @ mid @ ''}'' @ post \<and> CHR ''{'' \<notin> set pre \<and> CHR ''}'' \<notin> set post
            \<and> json_loads E (''{'' @ mid @ ''}'') = Inr v \<and> (is_dict v \<or> is_list v)
            \<longrightarrow> parse_json_from_response E (Some text) = Inr v)
       \<and> (\<forall>pre mid post v.
            \<not> (\<exists>a b c. text = a @ ''{'' @ b @ ''}'' @ c)
            \<and> text = pre @ ''['' @ mid @ '']'' @ post \<and> CHR ''['' \<notin> set pre \<and> CHR '']'' \<notin> set post
            \<and> json_loads E (''['' @ mid @ '']'') = Inr v \<and> (is_dict v \<or> is_list v)
            \<longrightarrow> parse_json_from_response E (Some text) = Inr v)"
proof (intro conjI allI impI)
  fix pre mid post v
  assume h: "text = pre @ ''{'' @ mid @ ''}'' @ post \<and> CHR ''{'' \<notin> set pre \<and> CHR ''}'' \<notin> set post
            \<and> json_loads E (''{'' @ mid @ ''}'') = Inr v \<and> (is_dict v \<or> is_list v)"
  then have "find_json_text text = Some (''{'' @ mid @ ''}'')"
    using find_json_text_object [OF assms] by blast
  then show "parse_json_from_response E (Some text) = Inr v"
    using h by (intro parse_of_candidate [where json_text = "''{'' @ mid @ ''}''"]) auto
next
  fix pre mid post v
  assume h: "\<not> (\<exists>a b c. text = a @ ''{'' @ b @ ''}'' @ c)
            \<and> text = pre @ ''['' @ mid @ '']'' @ post \<and> CHR ''['' \<notin> set pre \<and> CHR '']'' \<notin> set post
            \<and> json_loads E (''['' @ mid @ '']'') = Inr v \<and> (is_dict v \<or> is_list v)"
  then have "find_json_text text = Some (''['' @ mid @ '']'')"
    using find_json_text_array [OF assms] by blast
  then show "parse_json_from_response E (Some text) = Inr v"
    using h by (intro parse_of_candidate [where json_text = "''['' @ mid @ '']''"]) auto
qed

text \<open>Two runs, an object span and an array span inside prose.\<close>

theorem embedded_span_extraction_witness:
  \<open>parse_json_from_response (sample_env []) (Some ''Here you go: {"a": 1} Thanks'')
     = Inr (JDict [(''a'', JInt 1)])
   \<and> parse_json_from_response (sample_env []) (Some ''Items: [1, 2] end'')
     = Inr (JList [JInt 1, JInt 2])\<close>
proof -
  let ?E = "sample_env []"
  let ?t1 = \<open>''Here you go: {"a": 1} Thanks''\<close>
  let ?t2 = \<open>''Items: [1, 2] end''\<close>
  have m1: "\<not> sublist START_MARK ?t1 \<or> \<not> sublist END_MARK ?t1"
    and m2: "\<not> sublist START_MARK ?t2 \<or> \<not> sublist END_MARK ?t2"
    by (simp_all add: sublist_code START_MARK_def)
  have s1: "\<not> startswith (strip ?t1) ''{''" "\<not> startswith (strip ?t1) ''[''"
    and s2: "\<not> startswith (strip ?t2) ''{''" "\<not> startswith (strip ?t2) ''[''"
    by (simp_all add: strip_def lstrip_def rstrip_def is_space_def startswith_def)
  have d1: \<open>json_loads ?E (''{'' @ ''"a": 1'' @ ''}'') = Inr (JDict [(''a'', JInt 1)])\<close>
    by (simp add: sample_defs)
  have d2: \<open>json_loads ?E (''['' @ ''1, 2'' @ '']'') = Inr (JList [JInt 1, JInt 2])\<close>
    by (simp add: sample_defs)
  have no_brace: \<open>\<not> (\<exists>a b c. ?t2 = a @ ''{'' @ b @ ''}'' @ c)\<close>
  proof
    assume \<open>\<exists>a b c. ?t2 = a @ ''{'' @ b @ ''}'' @ c\<close>
    then obtain a b c where \<open>?t2 = a @ ''{'' @ b @ ''}'' @ c\<close> by blast
    then have \<open>CHR ''{'' \<in> set ?t2\<close> by (metis append_Cons in_set_conv_decomp)
    then show False by simp
  qed
  have e1: \<open>?t1 = ''Here you go: '' @ ''{'' @ ''"a": 1'' @ ''}'' @ '' Thanks''\<close>
    and e2: \<open>?t2 = ''Items: '' @ ''['' @ ''1, 2'' @ '']'' @ '' end''\<close>
    by simp_all
  have n1: \<open>CHR ''{'' \<notin> set ''Here you go: ''\<close> \<open>CHR ''}'' \<notin> set '' Thanks''\<close>
    and n2: \<open>CHR ''['' \<notin> set ''Items: ''\<close> \<open>CHR '']'' \<notin> set '' end''\<close>
    by simp_all
  have obj: "parse_json_from_response ?E (Some ?t1) = Inr (JDict [(''a'', JInt 1)])"
    using embedded_span_extraction [OF m1 s1, of ?E] e1 n1 d1 is_dict.simps(1) by blast
  have arr: "parse_json_from_response ?E (Some ?t2) = Inr (JList [JInt 1, JInt 2])"
    using embedded_span_extraction [OF m2 s2, of ?E] no_brace e2 n2 d2 is_list.simps(1) by blast
  from obj arr show ?thesis by blast
qed

text \<open>
  Claim C6 as stated fails: in prose followed by an array of two objects, the span searched first
  runs from the first \<^verbatim>\<open>{\<close> to the last \<^verbatim>\<open>}\<close>. It is neither the first object nor the array, it does
  not decode, the array is never sought, and the extractor returns the empty dict.
\<close>

theorem embedded_span_counterexample:
  \<open>parse_json_from_response (sample_env []) (Some ''Slides: [{"a": 1}, {"b": 2}]'')
     = Inr (JDict [])
   \<and> json_loads (sample_env []) ''{"a": 1}'' = Inr (JDict [(''a'', JInt 1)])
   \<and> json_loads (sample_env []) ''[{"a": 1}, {"b": 2}]''
       = Inr (JList [JDict [(''a'', JInt 1)], JDict [(''b'', JInt 2)]])
   \<and> find_json_text ''Slides: [{"a": 1}, {"b": 2}]'' = Some ''{"a": 1}, {"b": 2}''\<close>
  by (simp add: parse_json_from_response_def parse_body_def extract_defs sample_defs)

section \<open>The batch orchestrator\<close>

lemma well_typed_is_dict: "well_typed_descriptor d \<Longrightarrow> \<exists>info. d = JDict info"
  by (auto simp: well_typed_descriptor_def)

lemma lookahead_total:
  assumes "debug_slide_structure st = Some S" "\<forall>d \<in> set S. well_typed_descriptor d" "1 \<le> k"
  shows "\<exists>b. is_explanation_for_image st (JInt k) title = Inr b"
proof (cases "k < int (length S)")
  case True
  with assms(3) have "nat k < length S" by simp
  then have "S ! nat k \<in> set S" by simp
  with assms(2) obtain info where "S ! nat k = JDict info"
    using well_typed_is_dict by blast
  with True assms(1,3) show ?thesis
    by (simp add: is_explanation_for_image_def as_number_def py_index_def)
next
  case False
  with assms(1) have "is_explanation_for_image st (JInt k) title = Inr False"
    by (simp add: is_explanation_for_image_def as_number_def)
  then show ?thesis by blast
qed

lemma build_prompt_total:
  assumes "debug_slide_structure st = Some S" "\<forall>d \<in> set S. well_typed_descriptor d" "1 \<le> k"
  shows "\<exists>p. build_prompt E st n topic cl (JInt k) title ty = Inr p"
proof -
  obtain b where "is_explanation_for_image st (JInt k) title = Inr b"
    using lookahead_total [OF assms] by blast
  then show ?thesis
    by (simp add: build_prompt_def Let_def)
qed

lemma build_prompt_state:
  "debug_slide_structure a = debug_slide_structure b
     \<Longrightarrow> build_prompt E a n topic cl num title ty = build_prompt E b n topic cl num title ty"
  by (simp add: build_prompt_def is_explanation_for_image_def)

lemma descriptor_prompt_state:
  "debug_slide_structure a = debug_slide_structure b
     \<Longrightarrow> descriptor_prompt E a n topic cl d = descriptor_prompt E b n topic cl d"
  by (cases d) (simp_all add: descriptor_prompt_def build_prompt_state [of a b])

lemma generate_slide_content_ok:
  assumes "groq_client st" "debug_slide_structure st = Some S"
    and "\<forall>d \<in> set S. well_typed_descriptor d" "well_typed_descriptor slide_info"
  shows "(\<exists>content. fst (generate_slide_content E st slide_info topic cl) = Inr content)
         \<and> groq_client (snd (generate_slide_content E st slide_info topic cl))
         \<and> debug_slide_structure (snd (generate_slide_content E st slide_info topic cl)) = Some S
         \<and> sent (snd (generate_slide_content E st slide_info topic cl))
             = sent st @ [descriptor_prompt E st (length (sent st)) topic cl slide_info]"
proof -
  from assms(4) obtain info k where info: "slide_info = JDict info"
      "map_of info ''slide_number'' = Some (JInt k)" "1 \<le> k"
    by (auto simp: well_typed_descriptor_def)
  have num: "dict_get_default info ''slide_number'' (JInt 0) = JInt k"
    using info(2) by (simp add: dict_get_default_def)
  obtain p where p: "build_prompt E st (length (sent st)) topic cl (JInt k)
        (dict_get_default info ''slide_title'' (JStr ''Untitled Slide''))
        (dict_get_default info ''slide_type'' (JStr ''content_slide'')) = Inr p"
    using build_prompt_total [OF assms(2,3) info(3)] by blast
  have dp: "descriptor_prompt E st (length (sent st)) topic cl slide_info = p"
    using p num by (simp add: descriptor_prompt_def info(1))
  have init: "init_groq_client_if_needed E st = Inr st"
    using assms(1) by (simp add: init_groq_client_if_needed_def)
  let ?n = "length (sent st)"
  show ?thesis
  proof (cases "llm E ?n p")
    case (Inl e)
    then show ?thesis
      unfolding dp using init p num assms(1,2)
      by (simp add: generate_slide_content_def info(1) Let_def)
  next
    case (Inr result_text)
    show ?thesis
    proof (cases "parse_json_from_response E result_text")
      case (Inl e)
      then show ?thesis
        unfolding dp using init p num Inr assms(1,2)
        by (simp add: generate_slide_content_def info(1) Let_def)
    next
      case parsed: (Inr parsed)
      then show ?thesis
        unfolding dp using init p num Inr assms(1,2)
        by (simp add: generate_slide_content_def info(1) Let_def)
    qed
  qed
qed

lemma place_content_int:
  assumes "length arr = n" "i < n"
  shows "place_content n i (JInt k) content arr
           = Inr (arr[(if 1 \<le> k \<and> k \<le> int n then nat (k - 1) else i) := JDict content])"
  using assms by (simp add: place_content_def as_number_def py_index_def)

lemma slot_well_typed:
  assumes "map_of info ''slide_number'' = Some (JInt k)"
  shows "slot n i (JDict info) = (if 1 \<le> k \<and> k \<le> int n then nat (k - 1) else i)"
  using assms by (simp add: slot_def dict_get_default_def)

lemma content_loop_ok:
  assumes "groq_client st" "debug_slide_structure st = Some S"
    and "\<forall>d \<in> set S. well_typed_descriptor d"
    and "\<forall>d \<in> set ds. well_typed_descriptor d" "length arr = n" "i + length ds \<le> n"
  shows "content_loop E topic cl n i ds arr st
           = (Inr (place_all n i ds (fst (run_all E topic cl ds st)) arr),
              snd (run_all E topic cl ds st))
         \<and> length (fst (run_all E topic cl ds st)) = length ds
         \<and> sent (snd (run_all E topic cl ds st))
             = sent st @ map (\<lambda>j. descriptor_prompt E st (length (sent st) + j) topic cl (ds ! j))
                            [0..<length ds]
         \<and> length (place_all n i ds (fst (run_all E topic cl ds st)) arr) = n"
  using assms(1,2,4,5,6)
proof (induction ds arbitrary: i arr st)
  case Nil
  then show ?case by simp
next
  case (Cons d ds)
  let ?G = "generate_slide_content E st d topic cl"
  have wd: "well_typed_descriptor d" using Cons.prems(3) by simp
  from generate_slide_content_ok [OF Cons.prems(1,2) assms(3) wd, of E topic cl]
  obtain content0 where g0: "fst ?G = Inr content0" "groq_client (snd ?G)"
      "debug_slide_structure (snd ?G) = Some S"
      "sent (snd ?G) = sent st @ [descriptor_prompt E st (length (sent st)) topic cl d]"
    by blast
  obtain content st' where G: "?G = (Inr content, st')"
    using g0(1) by (metis prod.collapse)
  have g: "fst ?G = Inr content" "groq_client st'" "debug_slide_structure st' = Some S"
      "sent st' = sent st @ [descriptor_prompt E st (length (sent st)) topic cl d]"
    using g0 G by simp_all
  from wd obtain info k where info: "d = JDict info" "map_of info ''slide_number'' = Some (JInt k)"
    by (auto simp: well_typed_descriptor_def)
  let ?arr' = "arr[slot n i d := JDict content]"
  have i: "i < n" using Cons.prems(5) by simp
  have num: "dict_get_default info ''slide_number'' (JInt (int i + 1)) = JInt k"
    using info(2) by (simp add: dict_get_default_def)
  have pl: "place_content n i (JInt k) content arr = Inr ?arr'"
    using place_content_int [OF Cons.prems(4) i] slot_well_typed [OF info(2)] info(1) by simp
  have loop: "content_loop E topic cl n i (d # ds) arr st
                = content_loop E topic cl n (Suc i) ds ?arr' st'"
    using G pl num by (simp add: info(1) Let_def)
  have run: "run_all E topic cl (d # ds) st
               = (content # fst (run_all E topic cl ds st'), snd (run_all E topic cl ds st'))"
    using G by (simp add: case_prod_beta)
  have IH: "content_loop E topic cl n (Suc i) ds ?arr' st'
           = (Inr (place_all n (Suc i) ds (fst (run_all E topic cl ds st')) ?arr'),
              snd (run_all E topic cl ds st'))
         \<and> length (fst (run_all E topic cl ds st')) = length ds
         \<and> sent (snd (run_all E topic cl ds st'))
             = sent st' @ map (\<lambda>j. descriptor_prompt E st' (length (sent st') + j) topic cl (ds ! j))
                            [0..<length ds]
         \<and> length (place_all n (Suc i) ds (fst (run_all E topic cl ds st')) ?arr') = n"
    by (rule Cons.IH) (use g Cons.prems in simp_all)
  have same: "descriptor_prompt E st' m topic cl x = descriptor_prompt E st m topic cl x" for m x
    by (rule descriptor_prompt_state) (simp add: g(3) Cons.prems(2))
  have sent': "sent st' @ map (\<lambda>j. descriptor_prompt E st' (length (sent st') + j) topic cl (ds ! j))
                            [0..<length ds]
               = sent st @ map (\<lambda>j. descriptor_prompt E st (length (sent st) + j) topic cl ((d # ds) ! j))
                            [0..<length (d # ds)]"
    by (simp add: same g(4) map_upt_Suc del: upt_Suc)
  show ?case
    unfolding loop run using IH sent' by simp
qed

lemma init_client: "init_groq_client_if_needed E st = Inr s1 \<Longrightarrow> groq_client s1"
  by (auto simp: init_groq_client_if_needed_def split: if_splits option.splits)

lemma generate_slide_structure_ok:
  assumes "generate_slide_structure E st0 topic dm cl = (S, st1)" "S \<noteq> []"
  shows "groq_client st1 \<and> debug_slide_structure st1 = Some S
         \<and> (\<forall>d \<in> set S. well_typed_descriptor d)"
proof -
  obtain s1 where s1: "init_groq_client_if_needed E st0 = Inr s1"
    using assms by (cases "init_groq_client_if_needed E st0") (auto simp: generate_slide_structure_def)
  let ?p = "prompt_structure E topic dm cl"
  let ?s2 = "s1\<lparr>sent := sent s1 @ [?p]\<rparr>"
  obtain rt where rt: "llm E (length (sent s1)) ?p = Inr rt"
    using assms s1 by (cases "llm E (length (sent s1)) ?p") (auto simp: generate_slide_structure_def Let_def)
  obtain v where v: "parse_json_from_response E rt = Inr v"
    using assms s1 rt by (cases "parse_json_from_response E rt") (auto simp: generate_slide_structure_def Let_def)
  obtain xs where xs: "v = JList xs" "xs \<noteq> []"
    using assms s1 rt v by (cases v) (auto simp: generate_slide_structure_def Let_def split: if_splits)
  obtain out where out: "process_items 0 xs [] = Inr out"
    using assms s1 rt v xs by (cases "process_items 0 xs []") (auto simp: generate_slide_structure_def Let_def)
  have eq: "generate_slide_structure E st0 topic dm cl
              = (out, ?s2\<lparr>debug_slide_structure := Some out\<rparr>)"
    using s1 rt v xs out by (simp add: generate_slide_structure_def Let_def)
  have "S = fst (generate_slide_structure E st0 topic dm cl)"
    and "st1 = snd (generate_slide_structure E st0 topic dm cl)"
    using assms(1) by simp_all
  then have S: "S = out" "st1 = ?s2\<lparr>debug_slide_structure := Some out\<rparr>"
    unfolding eq by simp_all
  have "\<forall>d \<in> set out. well_typed_descriptor d"
    using process_items_well_typed [OF out] by simp
  then show ?thesis
    using S init_client [OF s1] by simp
qed

lemma place_all_in_order:
  assumes "length ps = length ds" "\<forall>j < length ds. slot n (i + j) (ds ! j) = i + j" "length pre = i"
  shows "place_all n i ds ps (pre @ replicate (length ds) JNull @ suf) = pre @ map JDict ps @ suf"
  using assms
proof (induction ds arbitrary: i ps pre)
  case Nil
  then show ?case by simp
next
  case (Cons d ds)
  then obtain p ps' where ps: "ps = p # ps'" by (cases ps) auto
  have s0: "slot n i d = i" using Cons.prems(2) by fastforce
  have upd: "(pre @ replicate (length (d # ds)) JNull @ suf)[i := JDict p]
               = (pre @ [JDict p]) @ replicate (length ds) JNull @ suf"
    using Cons.prems(3) by (simp add: list_update_append)
  have "place_all n (Suc i) ds ps' ((pre @ [JDict p]) @ replicate (length ds) JNull @ suf)
          = (pre @ [JDict p]) @ map JDict ps' @ suf"
  proof (rule Cons.IH)
    show "length ps' = length ds" using Cons.prems(1) ps by simp
    show "\<forall>j<length ds. slot n (Suc i + j) (ds ! j) = Suc i + j"
      using Cons.prems(2) by fastforce
    show "length (pre @ [JDict p]) = Suc i" using Cons.prems(3) by simp
  qed
  then show ?case
    unfolding ps using s0 upd by simp
qed

lemmas structure_defs = generate_slide_structure_def init_groq_client_if_needed_def init_state_def
  parse_json_from_response_def parse_body_def extract_defs sample_defs
  not_in_valid_types_def valid_slide_types_def has_key_def dict_get_def

text \<open>
  Claim C8, as the code has it. For every non-empty structure that \<^verbatim>\<open>generate_slide_structure\<close>
  returns, of \<open>n\<close> descriptors, \<^verbatim>\<open>create_slides_with_content\<close> raises nothing and returns that
  structure; it calls content generation once for every descriptor, in slide order, each call
  taking the state the call before left (\<open>run_all\<close>), whatever the language model answers or
  raises; the requests sent are the \<open>n\<close> prompts of the descriptors in that order. The result
  array keeps its length \<open>n\<close>: the payload of the descriptor at index \<open>i\<close> goes to index
  \<open>slide_number - 1\<close> when the number lies in \<open>1..n\<close> and to index \<open>i\<close> otherwise (\<open>slot\<close>), and is
  never appended. The contents returned are the filled slots in order; when every descriptor is
  numbered with its position they are all \<open>n\<close> payloads, in slide order.
\<close>

theorem batch_runs_every_slide:
  assumes "generate_slide_structure E
             (st\<lparr>debug_slide_structure := None, debug_slide_contents := None\<rparr>)
             topic delivery_medium complexity_level = (S, st1)"
    and "S \<noteq> []"
  shows "\<exists>payloads st'.
           create_slides_with_content E st topic delivery_medium complexity_level
             = (Inr (S, filter (\<lambda>c. c \<noteq> JNull)
                          (place_all (length S) 0 S payloads (replicate (length S) JNull))), st')
           \<and> run_all E topic complexity_level S st1 = (payloads, st')
           \<and> length payloads = length S
           \<and> sent st' = sent st1 @ map (\<lambda>i. descriptor_prompt E st1 (length (sent st1) + i) topic
                                              complexity_level (S ! i)) [0..<length S]
           \<and> length (place_all (length S) 0 S payloads (replicate (length S) JNull)) = length S
           \<and> ((\<forall>i < length S. slot (length S) i (S ! i) = i)
                \<longrightarrow> filter (\<lambda>c. c \<noteq> JNull)
                      (place_all (length S) 0 S payloads (replicate (length S) JNull))
                    = map JDict payloads)"
proof -
  let ?n = "length S"
  let ?run = "run_all E topic complexity_level S st1"
  let ?arr = "place_all ?n 0 S (fst ?run) (replicate ?n JNull)"
  from generate_slide_structure_ok [OF assms]
  have ok: "groq_client st1" "debug_slide_structure st1 = Some S"
    "\<forall>d \<in> set S. well_typed_descriptor d" by simp_all
  have loop: "content_loop E topic complexity_level ?n 0 S (replicate ?n JNull) st1
                = (Inr ?arr, snd ?run)
              \<and> length (fst ?run) = ?n
              \<and> sent (snd ?run) = sent st1 @ map (\<lambda>j. descriptor_prompt E st1 (length (sent st1) + j)
                                        topic complexity_level (S ! j)) [0..<?n]
              \<and> length ?arr = ?n"
    by (rule content_loop_ok [OF ok(1,2,3) ok(3)]) simp_all
  have batch: "create_slides_with_content E st topic delivery_medium complexity_level
                 = (Inr (S, filter (\<lambda>c. c \<noteq> JNull) ?arr), snd ?run)"
    using assms loop by (simp add: create_slides_with_content_def Let_def)
  have ordered: "filter (\<lambda>c. c \<noteq> JNull) ?arr = map JDict (fst ?run)"
    if "\<forall>i < ?n. slot ?n i (S ! i) = i"
  proof -
    have "place_all ?n 0 S (fst ?run) ([] @ replicate ?n JNull @ []) = [] @ map JDict (fst ?run) @ []"
      by (rule place_all_in_order) (use loop that in simp_all)
    then have "?arr = map JDict (fst ?run)" by simp
    then show ?thesis by (simp add: filter_map comp_def)
  qed
  show ?thesis
    using batch loop ordered
    by (intro exI [of _ "fst ?run"] exI [of _ "snd ?run"]) simp
qed

text \<open>A run with a structure of two slides; the model raises on both content requests, and both
  slides still get their payload.\<close>

theorem batch_runs_every_slide_witness:
  \<open>\<exists>payloads st'.
     create_slides_with_content (sample_env [structure_answer]) (init_state (sample_env []))
         ''Cells'' ''online'' ''Basic''
       = (Inr ([JDict [(''slide_title'', JStr ''Cells''), (''slide_type'', JStr ''title_slide''),
                       (''slide_number'', JInt 1)],
                JDict [(''slide_title'', JStr ''Parts''), (''slide_type'', JStr ''bullet_point_slide''),
                       (''slide_number'', JInt 2)]],
               map JDict payloads), st')
     \<and> length payloads = 2\<close>
proof -
  let ?E = "sample_env [structure_answer]"
  let ?st = "init_state (sample_env [])"
  let ?S = "[JDict [(''slide_title'', JStr ''Cells''), (''slide_type'', JStr ''title_slide''),
                       (''slide_number'', JInt 1)],
                JDict [(''slide_title'', JStr ''Parts''), (''slide_type'', JStr ''bullet_point_slide''),
                       (''slide_number'', JInt 2)]]"
  let ?G = "generate_slide_structure ?E
             (?st\<lparr>debug_slide_structure := None, debug_slide_contents := None\<rparr>)
             ''Cells'' ''online'' ''Basic''"
  have "fst ?G = ?S"
    by (simp add: structure_defs structure_answer_def)
  then have G: "?G = (?S, snd ?G)" by (metis prod.collapse)
  have ne: "?S \<noteq> []" by simp
  have slots: "\<forall>i < length ?S. slot (length ?S) i (?S ! i) = i"
    by (simp add: slot_def dict_get_default_def All_less_Suc)
  from batch_runs_every_slide [OF G ne] slots show ?thesis
    by auto
qed

text \<open>
  Claim C8 as stated fails: here the structure has two descriptors numbered 2 and 3. The second
  payload, whose number lies outside 1..2, is not appended: it is written at index 1, over the
  first payload, and the contents returned hold the second payload only.
\<close>

theorem out_of_range_counterexample:
  \<open>fst (create_slides_with_content
          (sample_env [gapped_answer, ''{"main_content": ["first"]}'', ''{"main_content": ["second"]}''])
          (init_state (sample_env [])) ''Cells'' ''online'' ''Basic'')
   = Inr ([JDict [(''slide_title'', JStr ''Cells''), (''slide_type'', JStr ''title_slide''),
                  (''slide_number'', JInt 2)],
           JDict [(''slide_title'', JStr ''Parts''), (''slide_type'', JStr ''bullet_point_slide''),
                  (''slide_number'', JInt 3)]],
          [JDict [(''main_content'', JList [JStr ''second''])]])\<close>
  by (simp add: create_slides_with_content_def structure_defs gapped_answer_def
        generate_slide_content_def build_prompt_def dict_get_default_def place_content_def
        as_number_def py_index_def Let_def)

end
